theory Spec2Isabelle
  imports Complex_Main "HOL-Library.AList"
begin

section \<open>JavaScript values\<close>

text \<open>
  The program is JavaScript: event payloads arrive as parsed JSON, notification drafts and
  stored notifications are plain objects, and user ids, socket ids and notification ids are
  whatever values the callers pass. Values are modelled as a datatype; an object is the list
  of its own properties in insertion order. Numbers are real numbers, without NaN and the
  infinities; the one arithmetic operation of the program, the sum that makes a
  notification id, is taken from the runtime. A string is the list of its code units.
\<close>

datatype jsval =
    JUndefined
  | JNull
  | JBool bool
  | JNum real
  | JStr string
  | JArr "jsval list"
  | JObj "(string \<times> jsval) list"

type_synonym jsobj = "(string \<times> jsval) list"

datatype js_error = TypeError | ReferenceError | SyntaxError | UnhandledError | TransportError

text \<open>The operator \<open>===\<close>. Two primitives are equal when they have the same type and
  value. Objects and arrays are equal only to themselves as references; references are not
  modelled, so two object values never compare equal.\<close>

fun strict_eq :: "jsval \<Rightarrow> jsval \<Rightarrow> bool" where
  "strict_eq JUndefined JUndefined = True"
| "strict_eq JNull JNull = True"
| "strict_eq (JBool a) (JBool b) = (a = b)"
| "strict_eq (JNum a) (JNum b) = (a = b)"
| "strict_eq (JStr a) (JStr b) = (a = b)"
| "strict_eq _ _ = False"

text \<open>Conversion to boolean, as done by \<open>!\<close>, \<open>&&\<close> and \<open>if\<close>.\<close>

fun truthy :: "jsval \<Rightarrow> bool" where
  "truthy JUndefined = False"
| "truthy JNull = False"
| "truthy (JBool b) = b"
| "truthy (JNum r) = (r \<noteq> 0)"
| "truthy (JStr s) = (s \<noteq> [])"
| "truthy (JArr _) = True"
| "truthy (JObj _) = True"

text \<open>Reading a property \<open>v.k\<close>. On \<open>undefined\<close> and \<open>null\<close> it throws a TypeError;
  on an object it yields the own property or \<open>undefined\<close>. The property names read by this
  program (\<open>post\<close>, \<open>author\<close>, \<open>id\<close>, \<open>name\<close>, \<open>text\<close>, ...) are on no prototype of a
  primitive or an array, so there the result is \<open>undefined\<close>.\<close>

definition obj_get :: "jsobj \<Rightarrow> string \<Rightarrow> jsval" where
  "obj_get ob k = (case map_of ob k of None \<Rightarrow> JUndefined | Some v \<Rightarrow> v)"

fun get_prop :: "jsval \<Rightarrow> string \<Rightarrow> js_error + jsval" where
  "get_prop JUndefined k = Inl TypeError"
| "get_prop JNull k = Inl TypeError"
| "get_prop (JObj ps) k = Inr (obj_get ps k)"
| "get_prop _ k = Inr JUndefined"

text \<open>Assignment \<open>ob.k = v\<close> and the entry \<open>k: v\<close> of an object literal: an existing
  property keeps its position and takes the new value, a new one is appended.\<close>

definition obj_set :: "string \<Rightarrow> jsval \<Rightarrow> jsobj \<Rightarrow> jsobj" where
  "obj_set k v ob = AList.update k v ob"

text \<open>The entry \<open>...src\<close> of an object literal: every own property of \<open>src\<close> is
  assigned, in order, onto the object built so far.\<close>

definition spread :: "jsobj \<Rightarrow> jsobj \<Rightarrow> jsobj" where
  "spread ob src = fold (\<lambda>(k, v) acc. obj_set k v acc) src ob"

definition has_own :: "jsobj \<Rightarrow> string \<Rightarrow> bool" where
  "has_own ob k = (k \<in> set (map fst ob))"

section \<open>The runtime and the program state\<close>

text \<open>
  \<open>addNotification\<close> reads the clock and the random generator. The readings are inputs of
  the program: \<open>date_now rt k\<close>, \<open>math_random rt k\<close> and \<open>to_iso_string rt k\<close> are what
  \<open>Date.now()\<close>, \<open>Math.random()\<close> and \<open>new Date().toISOString()\<close> return in the
  \<open>k\<close>-th call of \<open>addNotification\<close>. \<open>num_add rt\<close> is the operator \<open>+\<close> on numbers, which
  for IEEE doubles rounds the exact sum, and \<open>to_string rt v\<close> is the string a template
  literal produces for \<open>${v}\<close>.
\<close>

record runtime =
  date_now :: "nat \<Rightarrow> real"
  math_random :: "nat \<Rightarrow> real"
  num_add :: "real \<Rightarrow> real \<Rightarrow> real"
  to_iso_string :: "nat \<Rightarrow> string"
  to_string :: "jsval \<Rightarrow> string"

text \<open>The value of \<open>Date.now() + Math.random()\<close> in the \<open>k\<close>-th call.\<close>

definition generated_id :: "runtime \<Rightarrow> nat \<Rightarrow> real" where
  "generated_id rt k = num_add rt (date_now rt k) (math_random rt k)"

text \<open>The entries of \<open>data/users.js\<close>. A user object may lack \<open>following\<close>.\<close>

record user =
  user_id :: jsval
  email :: string
  password :: string
  user_type :: string
  user_name :: string
  user_followers :: "jsval list"
  user_following :: "jsval list option"

text \<open>
  The two module-level maps of \<open>services/notifications.js\<close>, the array of
  \<open>data/users.js\<close> (the follow routes change it), the number of \<open>addNotification\<close>
  calls made so far, the events emitted on sockets
  (\<open>io.to(socketId).emit('newNotification', notification)\<close>, oldest first) and the errors
  written by \<open>console.error\<close>.
\<close>

record state =
  notifications :: "jsval \<rightharpoonup> jsobj list"
  userSockets :: "jsval \<rightharpoonup> jsval"
  users :: "user list"
  ticks :: nat
  emitted :: "(jsval \<times> jsobj) list"
  console :: "js_error list"

definition seed_users :: "user list" where
  "seed_users =
     [\<lparr>user_id = JNum 1, email = ''celeb@example.com'', password = ''123456'',
       user_type = ''celebrity'', user_name = ''John Celebrity'',
       user_followers = [JNum 2], user_following = Some []\<rparr>,
      \<lparr>user_id = JNum 2, email = ''user@example.com'', password = ''123456'',
       user_type = ''public'', user_name = ''Jane Public'',
       user_followers = [], user_following = Some [JNum 1]\<rparr>]"

definition init_state :: state where
  "init_state = \<lparr>notifications = Map.empty, userSockets = Map.empty, users = seed_users,
                  ticks = 0, emitted = [], console = []\<rparr>"

definition console_error :: "js_error \<Rightarrow> state \<Rightarrow> state" where
  "console_error e s = s\<lparr>console := console s @ [e]\<rparr>"

section \<open>The notification store (services/notifications.js)\<close>

definition user_list :: "state \<Rightarrow> jsval \<Rightarrow> jsobj list" where
  "user_list s userId = (case notifications s userId of None \<Rightarrow> [] | Some l \<Rightarrow> l)"

text \<open>The object literal of \<open>addNotification\<close>:
  \<open>{id: Date.now() + Math.random(), ...notification, timestamp: ..., read: false}\<close>.\<close>

definition new_record :: "runtime \<Rightarrow> nat \<Rightarrow> jsobj \<Rightarrow> jsobj" where
  "new_record rt k notification =
     obj_set ''read'' (JBool False)
       (obj_set ''timestamp'' (JStr (to_iso_string rt k))
          (spread [(''id'', JNum (generated_id rt k))] notification))"

definition addNotification :: "runtime \<Rightarrow> jsval \<Rightarrow> jsobj \<Rightarrow> state \<Rightarrow> jsobj \<times> state" where
  "addNotification rt userId notification s =
     (let userNotifications = user_list s userId;
          newNotification = new_record rt (ticks s) notification;
          unshifted = newNotification # userNotifications;
          kept = (if length unshifted > 50 then take 50 unshifted else unshifted)
      in (newNotification,
          s\<lparr>notifications := (notifications s)(userId \<mapsto> kept), ticks := Suc (ticks s)\<rparr>))"

text \<open>\<open>xs.slice(0, limit)\<close>: a negative limit counts from the end.\<close>

definition slice0 :: "'a list \<Rightarrow> int \<Rightarrow> 'a list" where
  "slice0 xs limit =
     (if limit < 0 then take (nat (int (length xs) + limit)) xs else take (nat limit) xs)"

text \<open>The limit is optional and defaults to 20.\<close>

definition getNotifications :: "state \<Rightarrow> jsval \<Rightarrow> int option \<Rightarrow> jsobj list" where
  "getNotifications s userId limit =
     (case notifications s userId of
        None \<Rightarrow> []
      | Some userNotifications \<Rightarrow>
          slice0 userNotifications (case limit of None \<Rightarrow> 20 | Some l \<Rightarrow> l))"

definition unread :: "jsobj \<Rightarrow> bool" where
  "unread notification = (\<not> truthy (obj_get notification ''read''))"

definition getUnreadCount :: "state \<Rightarrow> jsval \<Rightarrow> nat" where
  "getUnreadCount s userId =
     (case notifications s userId of
        None \<Rightarrow> 0
      | Some userNotifications \<Rightarrow> length (filter unread userNotifications))"

definition has_id :: "jsval \<Rightarrow> jsobj \<Rightarrow> bool" where
  "has_id notificationId n = strict_eq (obj_get n ''id'') notificationId"

text \<open>\<open>find\<close> returns the first entry with the requested id; the assignment
  \<open>notification.read = true\<close> changes that entry where it sits in the list.\<close>

fun mark_first :: "jsval \<Rightarrow> jsobj list \<Rightarrow> jsobj list" where
  "mark_first notificationId [] = []"
| "mark_first notificationId (n # ns) =
     (if has_id notificationId n then obj_set ''read'' (JBool True) n # ns
      else n # mark_first notificationId ns)"

definition markAsRead :: "jsval \<Rightarrow> jsval \<Rightarrow> state \<Rightarrow> bool \<times> state" where
  "markAsRead userId notificationId s =
     (case notifications s userId of
        None \<Rightarrow> (False, s)
      | Some userNotifications \<Rightarrow>
          (case find (has_id notificationId) userNotifications of
             Some notification \<Rightarrow>
               (True, s\<lparr>notifications :=
                          (notifications s)(userId \<mapsto> mark_first notificationId userNotifications)\<rparr>)
           | None \<Rightarrow> (False, s)))"

definition markAllAsRead :: "jsval \<Rightarrow> state \<Rightarrow> bool \<times> state" where
  "markAllAsRead userId s =
     (case notifications s userId of
        None \<Rightarrow> (False, s)
      | Some userNotifications \<Rightarrow>
          (True, s\<lparr>notifications :=
                     (notifications s)(userId \<mapsto> map (obj_set ''read'' (JBool True)) userNotifications)\<rparr>))"

text \<open>The route \<open>POST /api/notifications/:id/read\<close> of \<open>index.js\<close>, for an
  authenticated user: the path parameter is a string and is passed on as it is. The result
  is the HTTP status.\<close>

definition mark_read_route :: "jsval \<Rightarrow> string \<Rightarrow> state \<Rightarrow> nat \<times> state" where
  "mark_read_route userId idParam s =
     (case markAsRead userId (JStr idParam) s of
        (success, s') \<Rightarrow> (if success then 200 else 404, s'))"

section \<open>The connection registry and the delivery (services/notifications.js)\<close>

definition registerUserSocket :: "jsval \<Rightarrow> jsval \<Rightarrow> state \<Rightarrow> state" where
  "registerUserSocket userId socketId s = s\<lparr>userSockets := (userSockets s)(userId \<mapsto> socketId)\<rparr>"

definition unregisterUserSocket :: "jsval \<Rightarrow> state \<Rightarrow> state" where
  "unregisterUserSocket userId s = s\<lparr>userSockets := (userSockets s)(userId := None)\<rparr>"

definition getUserSocket :: "state \<Rightarrow> jsval \<Rightarrow> jsval" where
  "getUserSocket s userId = (case userSockets s userId of None \<Rightarrow> JUndefined | Some h \<Rightarrow> h)"

text \<open>
  The socket server \<open>io\<close> is an argument of \<open>sendNotificationToUser\<close>. It is modelled by
  what \<open>io.to(socketId).emit('newNotification', notification)\<close> does: \<open>None\<close> when the
  event is emitted, \<open>Some e\<close> when the call throws \<open>e\<close>. An argument that is
  \<open>undefined\<close> (or otherwise falsy) is \<open>None\<close> of the option type.
\<close>

type_synonym io = "jsval \<Rightarrow> jsobj \<Rightarrow> js_error option"

definition sendNotificationToUser ::
  "jsval \<Rightarrow> jsobj \<Rightarrow> io option \<Rightarrow> state \<Rightarrow> js_error option \<times> state" where
  "sendNotificationToUser userId notification io s =
     (let socketId = getUserSocket s userId in
      case io of
        None \<Rightarrow> (None, s)
      | Some to_emit \<Rightarrow>
          if truthy socketId then
            (case to_emit socketId notification of
               None \<Rightarrow> (None, s\<lparr>emitted := emitted s @ [(socketId, notification)]\<rparr>)
             | Some e \<Rightarrow> (Some e, s))
          else (None, s))"

section \<open>Notification drafts (services/notifications.js)\<close>

definition bindE :: "'e + 'a \<Rightarrow> ('a \<Rightarrow> 'e + 'b) \<Rightarrow> 'e + 'b" where
  "bindE m f = (case m of Inl e \<Rightarrow> Inl e | Inr a \<Rightarrow> f a)"

text \<open>\<open>v.substring(0, n) + (v.length > n ? '...' : '')\<close>. The method exists on strings
  only; on every other value the call throws a TypeError.\<close>

definition truncated :: "nat \<Rightarrow> jsval \<Rightarrow> js_error + jsval" where
  "truncated n v =
     (case v of
        JStr t \<Rightarrow> Inr (JStr (take n t @ (if length t > n then ''...'' else [])))
      | _ \<Rightarrow> Inl TypeError)"

definition createPostNotification :: "runtime \<Rightarrow> jsval \<Rightarrow> jsval \<Rightarrow> js_error + jsobj" where
  "createPostNotification rt post author =
     bindE (get_prop author ''name'') (\<lambda>authorName.
     bindE (get_prop post ''id'') (\<lambda>postId.
     bindE (get_prop post ''userId'') (\<lambda>authorId.
     bindE (get_prop post ''content'') (\<lambda>content.
     bindE (truncated 100 content) (\<lambda>shown.
       Inr [(''type'', JStr ''newPost''),
            (''title'', JStr ''New Post''),
            (''message'', JStr (to_string rt authorName @ '' just posted something new!'')),
            (''data'', JObj [(''postId'', postId),
                             (''authorId'', authorId),
                             (''authorName'', authorName),
                             (''content'', shown)])])))))"

definition createLikeNotification ::
  "runtime \<Rightarrow> jsval \<Rightarrow> jsval \<Rightarrow> jsval \<Rightarrow> js_error + jsobj" where
  "createLikeNotification rt post liker postAuthor =
     bindE (get_prop liker ''name'') (\<lambda>likerName.
     bindE (get_prop post ''id'') (\<lambda>postId.
     bindE (get_prop liker ''id'') (\<lambda>likerId.
       Inr [(''type'', JStr ''newLike''),
            (''title'', JStr ''New Like''),
            (''message'', JStr (to_string rt likerName @ '' liked your post'')),
            (''data'', JObj [(''postId'', postId),
                             (''likerId'', likerId),
                             (''likerName'', likerName)])])))"

text \<open>
  \<open>createCommentNotification\<close> is declared with the three parameters
  \<open>(post, commenter, postAuthor)\<close>, and its body reads the identifier \<open>comment\<close>, which is
  none of them. The body is modelled with the binding of \<open>comment\<close> in the enclosing scope
  as an argument (\<open>None\<close> when there is no binding, and the read throws a ReferenceError).
  The module declares no \<open>comment\<close>, so the exported function is the body without a binding.
\<close>

definition createCommentNotification_body ::
  "runtime \<Rightarrow> jsval option \<Rightarrow> jsval \<Rightarrow> jsval \<Rightarrow> jsval \<Rightarrow> js_error + jsobj" where
  "createCommentNotification_body rt scope_comment post commenter postAuthor =
     bindE (get_prop commenter ''name'') (\<lambda>commenterName.
     bindE (get_prop post ''id'') (\<lambda>postId.
     bindE (case scope_comment of None \<Rightarrow> Inl ReferenceError | Some c \<Rightarrow> Inr c) (\<lambda>comment.
     bindE (get_prop comment ''id'') (\<lambda>commentId.
     bindE (get_prop commenter ''id'') (\<lambda>commenterId.
     bindE (get_prop comment ''text'') (\<lambda>text.
     bindE (truncated 50 text) (\<lambda>shown.
       Inr [(''type'', JStr ''newComment''),
            (''title'', JStr ''New Comment''),
            (''message'', JStr (to_string rt commenterName @ '' commented on your post'')),
            (''data'', JObj [(''postId'', postId),
                             (''commentId'', commentId),
                             (''commenterId'', commenterId),
                             (''commenterName'', commenterName),
                             (''commentText'', shown)])])))))))"

definition createCommentNotification ::
  "runtime \<Rightarrow> jsval \<Rightarrow> jsval \<Rightarrow> jsval \<Rightarrow> js_error + jsobj" where
  "createCommentNotification rt post commenter postAuthor =
     createCommentNotification_body rt None post commenter postAuthor"

section \<open>The event handlers (index.js)\<close>

text \<open>\<open>xs.includes(v)\<close>.\<close>

definition array_includes :: "jsval list \<Rightarrow> jsval \<Rightarrow> bool" where
  "array_includes xs v = list_ex (\<lambda>x. strict_eq x v) xs"

text \<open>A \<open>try { ... } catch (error) { console.error(..., error) }\<close> around a computation
  that may have changed the state before it threw.\<close>

definition try_catch :: "js_error option \<times> state \<Rightarrow> js_error option \<times> state" where
  "try_catch r = (case r of (Some e, s') \<Rightarrow> (None, console_error e s') | (None, s') \<Rightarrow> (None, s'))"

text \<open>\<open>users.filter(user => user.following && user.following.includes(author.id))\<close>:
  \<open>author.id\<close> is read once for every user that has a \<open>following\<close> list.\<close>

fun select_followers :: "jsval \<Rightarrow> user list \<Rightarrow> js_error + user list" where
  "select_followers author [] = Inr []"
| "select_followers author (u # us) =
     (case user_following u of
        None \<Rightarrow> select_followers author us
      | Some fl \<Rightarrow>
          bindE (get_prop author ''id'') (\<lambda>authorId.
          bindE (select_followers author us) (\<lambda>rest.
            Inr (if array_includes fl authorId then u # rest else rest))))"

text \<open>The body of \<open>followers.forEach(follower => ...)\<close>; an exception ends the loop.\<close>

fun notify_followers ::
  "runtime \<Rightarrow> io option \<Rightarrow> jsval \<Rightarrow> jsval \<Rightarrow> user list \<Rightarrow> state \<Rightarrow> js_error option \<times> state" where
  "notify_followers rt io post author [] s = (None, s)"
| "notify_followers rt io post author (follower # rest) s =
     (case createPostNotification rt post author of
        Inl e \<Rightarrow> (Some e, s)
      | Inr notification \<Rightarrow>
          (case sendNotificationToUser (user_id follower) notification io
                  (snd (addNotification rt (user_id follower) notification s)) of
             (Some e, s') \<Rightarrow> (Some e, s')
           | (None, s') \<Rightarrow> notify_followers rt io post author rest s'))"

definition newPost_handler ::
  "runtime \<Rightarrow> io option \<Rightarrow> jsval \<Rightarrow> state \<Rightarrow> js_error option \<times> state" where
  "newPost_handler rt io data s =
     try_catch
       (case bindE (get_prop data ''post'') (\<lambda>post.
             bindE (get_prop data ''author'') (\<lambda>author.
             bindE (select_followers author (users s)) (\<lambda>followers.
               Inr (post, author, followers)))) of
          Inl e \<Rightarrow> (Some e, s)
        | Inr (post, author, followers) \<Rightarrow> notify_followers rt io post author followers s)"

text \<open>The statements of a handler after its early return: create the draft, store it for
  the recipient, push it.\<close>

definition notify_one ::
  "runtime \<Rightarrow> io option \<Rightarrow> jsval \<Rightarrow> js_error + jsobj \<Rightarrow> state \<Rightarrow> js_error option \<times> state" where
  "notify_one rt io userId draft s =
     (case draft of
        Inl e \<Rightarrow> (Some e, s)
      | Inr notification \<Rightarrow>
          sendNotificationToUser userId notification io
            (snd (addNotification rt userId notification s)))"

definition newLike_handler ::
  "runtime \<Rightarrow> io option \<Rightarrow> jsval \<Rightarrow> state \<Rightarrow> js_error option \<times> state" where
  "newLike_handler rt io data s =
     try_catch
       (case bindE (get_prop data ''post'') (\<lambda>post.
             bindE (get_prop data ''liker'') (\<lambda>liker.
             bindE (get_prop data ''postAuthor'') (\<lambda>postAuthor.
             bindE (get_prop liker ''id'') (\<lambda>likerId.
             bindE (get_prop postAuthor ''id'') (\<lambda>postAuthorId.
               Inr (post, liker, postAuthor, likerId, postAuthorId)))))) of
          Inl e \<Rightarrow> (Some e, s)
        | Inr (post, liker, postAuthor, likerId, postAuthorId) \<Rightarrow>
            if strict_eq likerId postAuthorId then (None, s)
            else notify_one rt io postAuthorId
                   (createLikeNotification rt post liker postAuthor) s)"

text \<open>The handler calls \<open>createCommentNotification(post, comment, commenter, postAuthor)\<close>
  with four arguments: the function binds the first three to its parameters
  \<open>(post, commenter, postAuthor)\<close> and ignores the fourth.\<close>

definition newComment_handler ::
  "runtime \<Rightarrow> io option \<Rightarrow> jsval \<Rightarrow> state \<Rightarrow> js_error option \<times> state" where
  "newComment_handler rt io data s =
     try_catch
       (case bindE (get_prop data ''post'') (\<lambda>post.
             bindE (get_prop data ''comment'') (\<lambda>comment.
             bindE (get_prop data ''commenter'') (\<lambda>commenter.
             bindE (get_prop data ''postAuthor'') (\<lambda>postAuthor.
             bindE (get_prop commenter ''id'') (\<lambda>commenterId.
             bindE (get_prop postAuthor ''id'') (\<lambda>postAuthorId.
               Inr (post, comment, commenter, commenterId, postAuthorId))))))) of
          Inl e \<Rightarrow> (Some e, s)
        | Inr (post, comment, commenter, commenterId, postAuthorId) \<Rightarrow>
            if strict_eq commenterId postAuthorId then (None, s)
            else notify_one rt io postAuthorId
                   (createCommentNotification rt post comment commenter) s)"

section \<open>The event bus (services/redis.js)\<close>

text \<open>
  \<open>publishMessage\<close> passes \<open>JSON.stringify(message)\<close> to the emitter and the listener
  installed by \<open>subscribeToChannel\<close> applies \<open>JSON.parse\<close> to what it receives. A JSON
  text is represented by the value it denotes: \<open>json_value v\<close> is the value denoted by the
  text written for \<open>v\<close>, in which properties holding \<open>undefined\<close> are left out and
  \<open>undefined\<close> array elements are written as \<open>null\<close>. For \<open>undefined\<close> itself
  \<open>JSON.stringify\<close> returns \<open>undefined\<close>, which \<open>JSON.parse\<close> rejects.
\<close>

fun json_value :: "jsval \<Rightarrow> jsval" where
  "json_value (JArr xs) = JArr (map (\<lambda>x. if x = JUndefined then JNull else json_value x) xs)"
| "json_value (JObj ps) =
     JObj (map (\<lambda>p. (fst p, json_value (snd p))) (filter (\<lambda>p. snd p \<noteq> JUndefined) ps))"
| "json_value v = v"

definition json_stringify :: "jsval \<Rightarrow> jsval option" where
  "json_stringify v = (if v = JUndefined then None else Some (json_value v))"

definition json_parse :: "jsval option \<Rightarrow> js_error + jsval" where
  "json_parse message = (case message of None \<Rightarrow> Inl SyntaxError | Some v \<Rightarrow> Inr v)"

text \<open>A listener of the emitter takes the emitted message; it may throw.\<close>

type_synonym listener = "jsval option \<Rightarrow> state \<Rightarrow> js_error option \<times> state"

text \<open>A callback given to \<open>subscribeToChannel\<close> takes the parsed message.\<close>

type_synonym callback = "jsval \<Rightarrow> state \<Rightarrow> js_error option \<times> state"

record bus =
  listeners :: "string \<Rightarrow> listener list"
  subscriber_connected :: bool
  publisher_connected :: bool

definition init_bus :: bus where
  "init_bus = \<lparr>listeners = (\<lambda>channel. []), subscriber_connected = True,
                publisher_connected = True\<rparr>"

text \<open>\<open>eventEmitter.emit\<close> calls the listeners of the channel in the order of their
  registration; an exception of a listener leaves \<open>emit\<close> at once. An \<open>error\<close> event
  without a listener is thrown.\<close>

fun call_listeners :: "listener list \<Rightarrow> jsval option \<Rightarrow> state \<Rightarrow> js_error option \<times> state" where
  "call_listeners [] message s = (None, s)"
| "call_listeners (l # ls) message s =
     (case l message s of
        (Some e, s') \<Rightarrow> (Some e, s')
      | (None, s') \<Rightarrow> call_listeners ls message s')"

definition emit :: "bus \<Rightarrow> string \<Rightarrow> jsval option \<Rightarrow> state \<Rightarrow> js_error option \<times> state" where
  "emit b channel message s =
     (if channel = ''error'' \<and> listeners b channel = [] then (Some UnhandledError, s)
      else call_listeners (listeners b channel) message s)"

definition publish :: "bus \<Rightarrow> string \<Rightarrow> jsval option \<Rightarrow> state \<Rightarrow> js_error option \<times> state" where
  "publish b channel message s =
     (if publisher_connected b then emit b channel message s else (None, s))"

definition publishMessage :: "bus \<Rightarrow> string \<Rightarrow> jsval \<Rightarrow> state \<Rightarrow> js_error option \<times> state" where
  "publishMessage b channel message s =
     try_catch (publish b channel (json_stringify message) s)"

definition subscribe :: "bus \<Rightarrow> string \<Rightarrow> listener \<Rightarrow> bus" where
  "subscribe b channel l =
     (if subscriber_connected b
      then b\<lparr>listeners := (listeners b)(channel := listeners b channel @ [l])\<rparr>
      else b)"

text \<open>The listener that \<open>subscribeToChannel\<close> installs for a callback.\<close>

definition parse_and_call :: "callback \<Rightarrow> listener" where
  "parse_and_call cb message s =
     try_catch
       (case json_parse message of
          Inl e \<Rightarrow> (Some e, s)
        | Inr parsedMessage \<Rightarrow> cb parsedMessage s)"

definition subscribeToChannel :: "bus \<Rightarrow> string \<Rightarrow> callback \<Rightarrow> bus" where
  "subscribeToChannel b channel cb = subscribe b channel (parse_and_call cb)"

definition unsubscribe :: "bus \<Rightarrow> string \<Rightarrow> bus" where
  "unsubscribe b channel =
     (if subscriber_connected b then b\<lparr>listeners := (listeners b)(channel := [])\<rparr> else b)"

text \<open>The three subscriptions made by \<open>index.js\<close> at start-up.\<close>

definition app_bus :: "runtime \<Rightarrow> io option \<Rightarrow> bus" where
  "app_bus rt io =
     subscribeToChannel
       (subscribeToChannel
          (subscribeToChannel init_bus ''newPost'' (newPost_handler rt io))
          ''newLike'' (newLike_handler rt io))
       ''newComment'' (newComment_handler rt io)"

section \<open>Sequences of calls\<close>

text \<open>A sequence of \<open>addNotification\<close> calls, each with its user id and draft; the result
  holds the records the calls returned, in the order of the calls.\<close>

fun add_all :: "runtime \<Rightarrow> (jsval \<times> jsobj) list \<Rightarrow> state \<Rightarrow> jsobj list \<times> state" where
  "add_all rt [] s = ([], s)"
| "add_all rt ((userId, notification) # calls) s =
     (case addNotification rt userId notification s of
        (n, s1) \<Rightarrow> (case add_all rt calls s1 of (ns, s2) \<Rightarrow> (n # ns, s2)))"

section \<open>Predicates used in the statements\<close>

fun is_num :: "jsval \<Rightarrow> bool" where
  "is_num (JNum r) = True"
| "is_num _ = False"

text \<open>Every notification stored for the user has a number as its \<open>id\<close>.\<close>

definition numeric_ids :: "state \<Rightarrow> jsval \<Rightarrow> bool" where
  "numeric_ids s userId = list_all (\<lambda>n. is_num (obj_get n ''id'')) (user_list s userId)"

text \<open>The push reaches the socket: \<open>io\<close> and the handle are truthy and the emit does
  not throw.\<close>

definition delivered :: "io option \<Rightarrow> jsval \<Rightarrow> jsobj \<Rightarrow> bool" where
  "delivered io h n = (case io of None \<Rightarrow> False | Some f \<Rightarrow> truthy h \<and> f h n = None)"

text \<open>The records that a sequence of \<open>addNotification\<close> calls creates for one user, in
  the order of the calls, when the first call of the sequence is call number \<open>k\<close>.\<close>

fun added_for :: "jsval \<Rightarrow> runtime \<Rightarrow> (jsval \<times> jsobj) list \<Rightarrow> nat \<Rightarrow> jsobj list" where
  "added_for u rt [] k = []"
| "added_for u rt ((userId, notification) # calls) k =
     (if userId = u then [new_record rt k notification] else []) @ added_for u rt calls (Suc k)"

text \<open>No draft of the sequence has an \<open>id\<close> property of its own.\<close>

definition drafts_without_id :: "(jsval \<times> jsobj) list \<Rightarrow> bool" where
  "drafts_without_id calls = list_all (\<lambda>c. \<not> has_own (snd c) ''id'') calls"

definition ids_of :: "jsobj list \<Rightarrow> jsval list" where
  "ids_of ns = map (\<lambda>n. obj_get n ''id'') ns"

text \<open>A value that is neither \<open>undefined\<close> nor \<open>null\<close>, and the property read from
  such a value.\<close>

fun present :: "jsval \<Rightarrow> bool" where
  "present JUndefined = False"
| "present JNull = False"
| "present _ = True"

fun field :: "jsval \<Rightarrow> string \<Rightarrow> jsval" where
  "field (JObj ps) k = obj_get ps k"
| "field _ k = JUndefined"

text \<open>The socket server never throws (or there is none).\<close>

definition never_throws :: "io option \<Rightarrow> bool" where
  "never_throws io = (case io of None \<Rightarrow> True | Some f \<Rightarrow> \<forall>h n. f h n = None)"

text \<open>The user's \<open>following\<close> list holds the id.\<close>

definition follows :: "user \<Rightarrow> jsval \<Rightarrow> bool" where
  "follows u authorId =
     (case user_following u of None \<Rightarrow> False | Some fl \<Rightarrow> array_includes fl authorId)"

text \<open>The users whose \<open>following\<close> list holds the author's id, in the order of the users
  array.\<close>

definition followers_of :: "jsval \<Rightarrow> user list \<Rightarrow> user list" where
  "followers_of authorId us =
     filter (\<lambda>u. case user_following u of None \<Rightarrow> False
                  | Some fl \<Rightarrow> array_includes fl authorId) us"

section \<open>Sample data\<close>

text \<open>A runtime whose clock advances by one millisecond from call to call, and one in
  which every call reads the same millisecond and draws the same random number; both add
  exactly. The samples interpolate strings only, and \<open>sample_to_string\<close> is the
  conversion for strings, \<open>undefined\<close>, \<open>null\<close>, booleans and plain objects.\<close>

definition sample_to_string :: "jsval \<Rightarrow> string" where
  "sample_to_string v =
     (case v of
        JStr t \<Rightarrow> t
      | JUndefined \<Rightarrow> ''undefined''
      | JNull \<Rightarrow> ''null''
      | JBool b \<Rightarrow> (if b then ''true'' else ''false'')
      | _ \<Rightarrow> ''[object Object]'')"

definition rt0 :: runtime where
  "rt0 = \<lparr>date_now = (\<lambda>k. 1700000000000 + real k), math_random = (\<lambda>k. 1 / 4),
          num_add = (\<lambda>a b. a + b),
          to_iso_string = (\<lambda>k. ''2023-11-14T22:13:20.000Z''), to_string = sample_to_string\<rparr>"

definition rt_same :: runtime where
  "rt_same = \<lparr>date_now = (\<lambda>k. 1700000000000), math_random = (\<lambda>k. 1 / 4),
              num_add = (\<lambda>a b. a + b),
              to_iso_string = (\<lambda>k. ''2023-11-14T22:13:20.000Z''), to_string = sample_to_string\<rparr>"

definition like_draft :: jsobj where
  "like_draft =
     [(''type'', JStr ''newLike''), (''title'', JStr ''New Like''),
      (''message'', JStr ''Jane Public liked your post''),
      (''data'', JObj [(''postId'', JNum 1), (''likerId'', JNum 2),
                       (''likerName'', JStr ''Jane Public'')])]"

text \<open>The state after one \<open>addNotification\<close> for user 1.\<close>

definition one_stored :: state where
  "one_stored = snd (addNotification rt0 (JNum 1) like_draft init_state)"

text \<open>A socket server that emits every event, and one whose emit throws for one socket.\<close>

definition io_ok :: io where
  "io_ok socketId notification = None"

definition io_failing_at :: "jsval \<Rightarrow> io" where
  "io_failing_at bad socketId notification =
     (if socketId = bad then Some TransportError else None)"

text \<open>A draft that carries \<open>id\<close>, \<open>timestamp\<close> and \<open>read\<close> properties of its own.\<close>

definition loaded_draft :: jsobj where
  "loaded_draft =
     [(''type'', JStr ''newLike''), (''id'', JNum 7), (''timestamp'', JStr ''yesterday''),
      (''read'', JBool True)]"

definition three_calls :: "(jsval \<times> jsobj) list" where
  "three_calls = [(JNum 1, like_draft), (JNum 2, like_draft), (JNum 1, loaded_draft)]"

text \<open>Events as the routes of \<open>routes/posts.js\<close> publish them, after the JSON round trip:
  user 2 likes post 1 of user 1; user 1 likes the own post.\<close>

definition post1 :: jsval where
  "post1 = JObj [(''id'', JNum 1), (''userId'', JNum 1),
                 (''content'', JStr ''Excited to connect with my fans on StarConnect!''),
                 (''image'', JNull), (''timestamp'', JStr ''2023-11-14T22:00:00.000Z''),
                 (''likes'', JArr [JNum 2]), (''comments'', JArr [])]"

definition john :: jsval where
  "john = JObj [(''id'', JNum 1), (''name'', JStr ''John Celebrity''), (''type'', JStr ''celebrity'')]"

definition jane :: jsval where
  "jane = JObj [(''id'', JNum 2), (''name'', JStr ''Jane Public''), (''type'', JStr ''public'')]"

definition like_event :: jsval where
  "like_event = JObj [(''post'', post1), (''liker'', jane), (''postAuthor'', john)]"

definition self_like_event :: jsval where
  "self_like_event = JObj [(''post'', post1), (''liker'', john), (''postAuthor'', john)]"

text \<open>The state after fifty notifications for user 1, none of them read.\<close>

definition fifty_unread :: state where
  "fifty_unread = snd (add_all rt0 (replicate 50 (JNum 1, like_draft)) init_state)"

text \<open>User 2 comments on post 1 of user 1.\<close>

definition comment1 :: jsval where
  "comment1 = JObj [(''id'', JNum 1), (''userId'', JNum 2),
                    (''text'', JStr ''a very long comment exceeding fifty characters in total length''),
                    (''timestamp'', JStr ''2023-11-14T22:13:20.000Z'')]"

definition comment_event :: jsval where
  "comment_event =
     JObj [(''post'', post1), (''comment'', comment1), (''commenter'', jane),
           (''postAuthor'', john)]"

text \<open>User 1 publishes post 1. Three users, of whom users 2 and 3 follow user 1; and a
  users array in which user 1 follows user 1.\<close>

definition post_event :: jsval where
  "post_event = JObj [(''post'', post1), (''author'', john)]"

definition user_a :: user where
  "user_a = \<lparr>user_id = JNum 1, email = ''a@example.com'', password = ''123456'',
             user_type = ''celebrity'', user_name = ''John Celebrity'',
             user_followers = [JNum 2, JNum 3], user_following = Some []\<rparr>"

definition user_b :: user where
  "user_b = \<lparr>user_id = JNum 2, email = ''b@example.com'', password = ''123456'',
             user_type = ''public'', user_name = ''Jane Public'',
             user_followers = [], user_following = Some [JNum 1]\<rparr>"

definition user_c :: user where
  "user_c = \<lparr>user_id = JNum 3, email = ''c@example.com'', password = ''123456'',
             user_type = ''public'', user_name = ''Carol Public'',
             user_followers = [], user_following = Some [JNum 1]\<rparr>"

definition users_abc :: "user list" where
  "users_abc = [user_a, user_b, user_c]"

definition abc_state :: state where
  "abc_state = init_state\<lparr>users := users_abc\<rparr>"

definition user_self :: user where
  "user_self = \<lparr>user_id = JNum 1, email = ''celeb@example.com'', password = ''123456'',
                user_type = ''celebrity'', user_name = ''John Celebrity'',
                user_followers = [JNum 1], user_following = Some [JNum 1]\<rparr>"

definition self_follow_state :: state where
  "self_follow_state = init_state\<lparr>users := [user_self]\<rparr>"

text \<open>Users 2 and 3 are connected.\<close>

definition abc_connected :: state where
  "abc_connected =
     registerUserSocket (JNum 3) (JStr ''socketC'')
       (registerUserSocket (JNum 2) (JStr ''socketB'') abc_state)"

text \<open>The draft that \<open>createPostNotification\<close> builds for \<open>post_event\<close>.\<close>

definition post_draft :: jsobj where
  "post_draft =
     [(''type'', JStr ''newPost''), (''title'', JStr ''New Post''),
      (''message'', JStr ''John Celebrity just posted something new!''),
      (''data'', JObj [(''postId'', JNum 1), (''authorId'', JNum 1),
                       (''authorName'', JStr ''John Celebrity''),
                       (''content'', JStr ''Excited to connect with my fans on StarConnect!'')])]"

text \<open>A callback that throws at once, subscribed to \<open>newLike\<close> before the application's
  handler.\<close>

definition throwing_callback :: callback where
  "throwing_callback parsedMessage s = (Some TypeError, s)"

definition two_callbacks_bus :: bus where
  "two_callbacks_bus =
     subscribeToChannel (subscribeToChannel init_bus ''newLike'' throwing_callback)
       ''newLike'' (newLike_handler rt0 (Some io_ok))"

text \<open>A runtime with the addition of doubles for sums between \<open>2^40\<close> and \<open>2^41\<close>, where
  a double keeps 12 binary places: the exact sum is rounded to the nearest multiple of
  \<open>1/4096\<close>. All calls read the same millisecond; the random draws differ from call to
  call.\<close>

definition rt_double :: runtime where
  "rt_double = \<lparr>date_now = (\<lambda>k. 1700000000000),
                math_random = (\<lambda>k. 1 / 4 + real k / 1048576),
                num_add = (\<lambda>a b. of_int \<lfloor>(a + b) * 4096 + 1 / 2\<rfloor> / 4096),
                to_iso_string = (\<lambda>k. ''2023-11-14T22:13:20.000Z''),
                to_string = sample_to_string\<rparr>"

text \<open>Two notifications for user 1.\<close>

definition two_likes :: "(jsval \<times> jsobj) list" where
  "two_likes = [(JNum 1, like_draft), (JNum 1, like_draft)]"

section \<open>Unknown users\<close>

text \<open>
  C7. For a user id without an entry in the notification map, \<open>getNotifications\<close> returns
  the empty list for every limit, \<open>getUnreadCount\<close> returns 0 and \<open>markAllAsRead\<close> returns
  false and leaves the state as it was. None of the three can throw.
\<close>

theorem unknown_user_queries:
  assumes "notifications s userId = None"
  shows "getNotifications s userId limit = []
       \<and> getUnreadCount s userId = 0
       \<and> markAllAsRead userId s = (False, s)"
  using assms by (simp add: getNotifications_def getUnreadCount_def markAllAsRead_def)

theorem unknown_user_queries_witness:
  "notifications init_state (JNum 7) = None
   \<and> getNotifications init_state (JNum 7) (Some 20) = []
   \<and> getUnreadCount init_state (JNum 7) = 0
   \<and> markAllAsRead (JNum 7) init_state = (False, init_state)"
proof -
  have h: "notifications init_state (JNum 7) = None"
    by (simp add: init_state_def)
  show ?thesis
    using h unknown_user_queries [OF h, of "Some 20"] by simp
qed


section \<open>Objects\<close>

lemma obj_get_obj_set: "obj_get (obj_set k v ob) k' = (if k' = k then v else obj_get ob k')"
  by (simp add: obj_get_def obj_set_def update_conv')

lemma obj_set_twice: "obj_set k v (obj_set k v' ob) = obj_set k v ob"
  by (simp add: obj_set_def)

lemma map_of_spread: "map_of (spread ob src) = map_of ob ++ map_of (rev src)"
  unfolding spread_def
  by (induction src arbitrary: ob)
     (auto simp: obj_set_def update_conv' map_add_upd_left fun_eq_iff map_add_def
           split: option.splits)

section \<open>Marking one notification as read\<close>

lemma has_id_set_read: "has_id nid (obj_set ''read'' v n) = has_id nid n"
  by (simp add: has_id_def obj_get_obj_set)

lemma find_mark_first:
  "find (has_id nid) (mark_first nid l) =
     map_option (obj_set ''read'' (JBool True)) (find (has_id nid) l)"
  by (induction l) (auto simp: has_id_set_read)

lemma mark_first_idem: "mark_first nid (mark_first nid l) = mark_first nid l"
  by (induction l) (auto simp: has_id_set_read obj_set_twice)

lemma find_Some_list_ex: "(find P l \<noteq> None) = list_ex P l"
  by (induction l) auto

lemma mark_first_index:
  "list_ex (has_id nid) l \<Longrightarrow>
   \<exists>i<length l. has_id nid (l ! i) \<and> \<not> list_ex (has_id nid) (take i l)
      \<and> mark_first nid l = l[i := obj_set ''read'' (JBool True) (l ! i)]"
proof (induction l)
  case Nil
  then show ?case by simp
next
  case (Cons n ns)
  show ?case
  proof (cases "has_id nid n")
    case True
    then have "has_id nid ((n # ns) ! 0) \<and> \<not> list_ex (has_id nid) (take 0 (n # ns))
      \<and> mark_first nid (n # ns) = (n # ns)[0 := obj_set ''read'' (JBool True) ((n # ns) ! 0)]"
      by simp
    then show ?thesis by blast
  next
    case False
    with Cons.prems have "list_ex (has_id nid) ns" by simp
    from Cons.IH [OF this] obtain i where i: "i < length ns" "has_id nid (ns ! i)"
      "\<not> list_ex (has_id nid) (take i ns)"
      "mark_first nid ns = ns[i := obj_set ''read'' (JBool True) (ns ! i)]"
      by blast
    with False have "Suc i < length (n # ns) \<and> has_id nid ((n # ns) ! Suc i)
      \<and> \<not> list_ex (has_id nid) (take (Suc i) (n # ns))
      \<and> mark_first nid (n # ns) =
          (n # ns)[Suc i := obj_set ''read'' (JBool True) ((n # ns) ! Suc i)]"
      by simp
    then show ?thesis by blast
  qed
qed

lemma markAsRead_fst:
  "fst (markAsRead userId nid s) = list_ex (has_id nid) (user_list s userId)"
  using find_Some_list_ex [of "has_id nid" "user_list s userId"]
  by (auto simp: markAsRead_def user_list_def split: option.splits)

lemma markAsRead_absent:
  "\<not> list_ex (has_id nid) (user_list s userId) \<Longrightarrow> markAsRead userId nid s = (False, s)"
  using find_Some_list_ex [of "has_id nid" "user_list s userId"]
  by (auto simp: markAsRead_def user_list_def split: option.splits)

lemma markAsRead_present:
  "list_ex (has_id nid) (user_list s userId) \<Longrightarrow>
   markAsRead userId nid s =
     (True, s\<lparr>notifications :=
                (notifications s)(userId \<mapsto> mark_first nid (user_list s userId))\<rparr>)"
  using find_Some_list_ex [of "has_id nid" "user_list s userId"]
  by (auto simp: markAsRead_def user_list_def split: option.splits)

lemma markAsRead_idem:
  "markAsRead userId nid (snd (markAsRead userId nid s)) = markAsRead userId nid s"
proof (cases "list_ex (has_id nid) (user_list s userId)")
  case False
  then show ?thesis by (simp add: markAsRead_absent)
next
  case True
  let ?s' = "s\<lparr>notifications :=
                 (notifications s)(userId \<mapsto> mark_first nid (user_list s userId))\<rparr>"
  have l': "user_list ?s' userId = mark_first nid (user_list s userId)"
    by (simp add: user_list_def)
  have "find (has_id nid) (mark_first nid (user_list s userId)) \<noteq> None"
    using True find_Some_list_ex [of "has_id nid" "user_list s userId"]
    by (simp add: find_mark_first)
  then have ex': "list_ex (has_id nid) (user_list ?s' userId)"
    using find_Some_list_ex [of "has_id nid" "mark_first nid (user_list s userId)"]
    by (simp only: l')
  show ?thesis
    by (simp add: markAsRead_present [OF True] markAsRead_present [OF ex'] l' mark_first_idem)
qed

text \<open>
  C8. \<open>markAsRead\<close> returns true exactly when some notification of the user has the
  requested id (compared with \<open>===\<close>). If none has, the state is unchanged. If one has,
  the first such entry, at index \<open>i\<close>, gets \<open>read = true\<close> and nothing else changes. A
  second call with the same arguments returns the same value and the same state as the
  first.
\<close>

theorem markAsRead_spec:
  "fst (markAsRead userId nid s) = list_ex (has_id nid) (user_list s userId)
   \<and> (\<not> list_ex (has_id nid) (user_list s userId) \<longrightarrow> snd (markAsRead userId nid s) = s)
   \<and> (list_ex (has_id nid) (user_list s userId) \<longrightarrow>
        (\<exists>i<length (user_list s userId).
            has_id nid (user_list s userId ! i)
          \<and> \<not> list_ex (has_id nid) (take i (user_list s userId))
          \<and> snd (markAsRead userId nid s) =
              s\<lparr>notifications := (notifications s)(userId \<mapsto>
                   (user_list s userId)[i := obj_set ''read'' (JBool True) (user_list s userId ! i)])\<rparr>
          \<and> obj_get (user_list (snd (markAsRead userId nid s)) userId ! i) ''read'' = JBool True))
   \<and> markAsRead userId nid (snd (markAsRead userId nid s)) = markAsRead userId nid s"
proof (intro conjI impI)
  show "fst (markAsRead userId nid s) = list_ex (has_id nid) (user_list s userId)"
    by (rule markAsRead_fst)
  show "snd (markAsRead userId nid s) = s" if "\<not> list_ex (has_id nid) (user_list s userId)"
    using that by (simp add: markAsRead_absent)
  show "markAsRead userId nid (snd (markAsRead userId nid s)) = markAsRead userId nid s"
    by (rule markAsRead_idem)
  show "\<exists>i<length (user_list s userId).
            has_id nid (user_list s userId ! i)
          \<and> \<not> list_ex (has_id nid) (take i (user_list s userId))
          \<and> snd (markAsRead userId nid s) =
              s\<lparr>notifications := (notifications s)(userId \<mapsto>
                   (user_list s userId)[i := obj_set ''read'' (JBool True) (user_list s userId ! i)])\<rparr>
          \<and> obj_get (user_list (snd (markAsRead userId nid s)) userId ! i) ''read'' = JBool True"
    if ex: "list_ex (has_id nid) (user_list s userId)"
  proof -
    from mark_first_index [OF ex] obtain i where i: "i < length (user_list s userId)"
      "has_id nid (user_list s userId ! i)"
      "\<not> list_ex (has_id nid) (take i (user_list s userId))"
      "mark_first nid (user_list s userId) =
         (user_list s userId)[i := obj_set ''read'' (JBool True) (user_list s userId ! i)]"
      by blast
    have "snd (markAsRead userId nid s) =
              s\<lparr>notifications := (notifications s)(userId \<mapsto>
                   (user_list s userId)[i := obj_set ''read'' (JBool True) (user_list s userId ! i)])\<rparr>"
      by (simp add: markAsRead_present [OF ex] i(4))
    moreover from this i(1)
    have "obj_get (user_list (snd (markAsRead userId nid s)) userId ! i) ''read'' = JBool True"
      by (simp add: user_list_def obj_get_obj_set)
    ultimately show ?thesis using i(1,2,3) by blast
  qed
qed


lemma one_stored_list:
  "user_list one_stored (JNum 1) =
     [[(''id'', JNum (1700000000000 + 1 / 4)), (''type'', JStr ''newLike''),
       (''title'', JStr ''New Like''), (''message'', JStr ''Jane Public liked your post''),
       (''data'', JObj [(''postId'', JNum 1), (''likerId'', JNum 2),
                        (''likerName'', JStr ''Jane Public'')]),
       (''timestamp'', JStr ''2023-11-14T22:13:20.000Z''), (''read'', JBool False)]]"
  by (simp add: one_stored_def addNotification_def user_list_def init_state_def new_record_def
        spread_def obj_set_def like_draft_def rt0_def generated_id_def Let_def)

theorem markAsRead_spec_witness:
  "list_ex (has_id (JNum (1700000000000 + 1 / 4))) (user_list one_stored (JNum 1))
   \<and> fst (markAsRead (JNum 1) (JNum (1700000000000 + 1 / 4)) one_stored)
   \<and> markAsRead (JNum 1) (JNum (1700000000000 + 1 / 4))
        (snd (markAsRead (JNum 1) (JNum (1700000000000 + 1 / 4)) one_stored))
      = markAsRead (JNum 1) (JNum (1700000000000 + 1 / 4)) one_stored
   \<and> \<not> list_ex (has_id (JNum 5)) (user_list one_stored (JNum 1))
   \<and> \<not> fst (markAsRead (JNum 1) (JNum 5) one_stored)
   \<and> snd (markAsRead (JNum 1) (JNum 5) one_stored) = one_stored"
proof -
  have present: "list_ex (has_id (JNum (1700000000000 + 1 / 4))) (user_list one_stored (JNum 1))"
    by (simp add: one_stored_list has_id_def obj_get_def)
  have absent: "\<not> list_ex (has_id (JNum 5)) (user_list one_stored (JNum 1))"
    by (simp add: one_stored_list has_id_def obj_get_def)
  show ?thesis
    using present absent
      markAsRead_spec [of "JNum 1" "JNum (1700000000000 + 1 / 4)" one_stored]
      markAsRead_spec [of "JNum 1" "JNum 5" one_stored]
    by simp
qed

section \<open>The record built by addNotification\<close>

lemma map_of_rev_distinct: "distinct (map fst xs) \<Longrightarrow> map_of (rev xs) k = map_of xs k"
proof -
  assume d: "distinct (map fst xs)"
  then have d': "distinct (map fst (rev xs))" by (simp add: rev_map [symmetric])
  show ?thesis
  proof (cases "map_of xs k")
    case None
    then have "k \<notin> fst ` set (rev xs)" by (simp add: map_of_eq_None_iff)
    then have "map_of (rev xs) k = None" by (rule map_of_eq_None_iff [THEN iffD2])
    with None show ?thesis by simp
  next
    case (Some v)
    with d have "(k, v) \<in> set (rev xs)" by simp
    with d' have "map_of (rev xs) k = Some v" by (simp only: map_of_eq_Some_iff)
    with Some show ?thesis by simp
  qed
qed

lemma new_record_id:
  "\<not> has_own d ''id'' \<Longrightarrow>
   obj_get (new_record rt k d) ''id'' = JNum (generated_id rt k)"
proof -
  assume "\<not> has_own d ''id''"
  then have "map_of (rev d) ''id'' = None"
    by (simp add: has_own_def map_of_eq_None_iff)
  then have "map_of (spread [(''id'', JNum (generated_id rt k))] d) ''id''
             = Some (JNum (generated_id rt k))"
    by (simp add: map_of_spread map_add_def)
  then show ?thesis
    by (simp add: new_record_def obj_get_obj_set) (simp add: obj_get_def)
qed

lemma new_record_own_id:
  "has_own d ''id'' \<Longrightarrow> distinct (map fst d) \<Longrightarrow>
   obj_get (new_record rt k d) ''id'' = obj_get d ''id''"
proof -
  assume h: "has_own d ''id''" and d: "distinct (map fst d)"
  from h have "map_of d ''id'' \<noteq> None"
    by (simp add: has_own_def map_of_eq_None_iff)
  then obtain v where v: "map_of d ''id'' = Some v" by blast
  with d have "map_of (rev d) ''id'' = Some v"
    by (simp add: map_of_rev_distinct)
  then have "map_of (spread [(''id'', JNum (generated_id rt k))] d) ''id'' = Some v"
    by (simp add: map_of_spread map_add_def)
  then show ?thesis using v
    by (simp add: new_record_def obj_get_obj_set) (simp add: obj_get_def)
qed

lemma new_record_fields:
  "obj_get (new_record rt k d) ''read'' = JBool False"
  "obj_get (new_record rt k d) ''timestamp'' = JStr (to_iso_string rt k)"
  by (simp_all add: new_record_def obj_get_obj_set)

lemma user_list_addNotification:
  "user_list (snd (addNotification rt u d s)) u' =
     (if u' = u then take 50 (new_record rt (ticks s) d # user_list s u) else user_list s u')"
  by (simp add: addNotification_def Let_def user_list_def)

section \<open>String ids against stored numbers\<close>

lemma strict_eq_num_str: "is_num a \<Longrightarrow> \<not> strict_eq a (JStr t)"
  by (cases a) auto

lemma numeric_ids_no_string:
  "numeric_ids s userId \<Longrightarrow> \<not> list_ex (has_id (JStr t)) (user_list s userId)"
  by (auto simp: numeric_ids_def list_all_iff list_ex_iff has_id_def strict_eq_num_str)

text \<open>The ids are numbers in the initial state, and stay numbers when a draft without an
  \<open>id\<close> property is added (the drafts of the three handlers have none).\<close>

lemma numeric_ids_init: "numeric_ids init_state u"
  by (simp add: numeric_ids_def user_list_def init_state_def)

lemma numeric_ids_addNotification:
  "\<not> has_own d ''id'' \<Longrightarrow> numeric_ids s u' \<Longrightarrow>
   numeric_ids (snd (addNotification rt u d s)) u'"
  by (auto simp: numeric_ids_def user_list_addNotification list_all_iff new_record_id
           dest: in_set_takeD)

text \<open>
  C10. \<open>markAsRead\<close> compares with \<open>===\<close>, which never holds between a number and a
  string. When the ids stored for a user are numbers, \<open>markAsRead\<close> with any string (so
  also with the decimal text of a stored id) returns false and leaves the state unchanged,
  and the route \<open>POST /api/notifications/:id/read\<close>, which passes its path parameter as
  the string it is, answers 404.
\<close>

theorem markAsRead_string_id:
  assumes "numeric_ids s userId"
  shows "markAsRead userId (JStr idParam) s = (False, s)
       \<and> mark_read_route userId idParam s = (404, s)"
  using numeric_ids_no_string [OF assms, of idParam]
  by (simp add: markAsRead_absent mark_read_route_def)

theorem markAsRead_string_id_witness:
  "numeric_ids one_stored (JNum 1)
   \<and> obj_get (hd (user_list one_stored (JNum 1))) ''id'' = JNum (1700000000000 + 1 / 4)
   \<and> markAsRead (JNum 1) (JStr ''1700000000000.25'') one_stored = (False, one_stored)
   \<and> mark_read_route (JNum 1) ''1700000000000.25'' one_stored = (404, one_stored)"
proof -
  have h: "numeric_ids one_stored (JNum 1)"
    by (simp add: numeric_ids_def one_stored_list obj_get_def)
  have "obj_get (hd (user_list one_stored (JNum 1))) ''id'' = JNum (1700000000000 + 1 / 4)"
    by (simp add: one_stored_list obj_get_def)
  then show ?thesis
    using h markAsRead_string_id [OF h, of "''1700000000000.25''"] by simp
qed


section \<open>The connection registry\<close>

lemma send_registered:
  "userSockets s U = Some h \<Longrightarrow>
   snd (sendNotificationToUser U n io s) =
     s\<lparr>emitted := emitted s @ (if delivered io h n then [(h, n)] else [])\<rparr>"
  by (auto simp: sendNotificationToUser_def getUserSocket_def delivered_def Let_def
           split: option.splits)

lemma send_unregistered:
  "userSockets s U = None \<Longrightarrow> sendNotificationToUser U n io s = (None, s)"
  by (auto simp: sendNotificationToUser_def getUserSocket_def Let_def split: option.splits)

lemma unregister_absent: "userSockets s U = None \<Longrightarrow> unregisterUserSocket U s = s"
proof -
  assume "userSockets s U = None"
  then have "(userSockets s)(U := None) = userSockets s"
    by (rule fun_upd_idem)
  then show ?thesis by (simp add: unregisterUserSocket_def)
qed

text \<open>
  C9. The registry is a map, so a user has at most one handle. After \<open>h1\<close> and then
  \<open>h2\<close> are registered for \<open>U\<close> the registry holds \<open>h2\<close> for \<open>U\<close>, a delivery for
  \<open>U\<close> emits at most one event and only to \<open>h2\<close>, and the events emitted to a different
  \<open>h1\<close> stay as they were. Unregistering a user without a handle changes nothing. A
  delivery for a user without a handle changes nothing: nothing is emitted and the stored
  notifications are read as before.
\<close>

theorem registry_single_handle:
  "userSockets (registerUserSocket U h2 (registerUserSocket U h1 s)) = (userSockets s)(U \<mapsto> h2)
   \<and> snd (sendNotificationToUser U n io (registerUserSocket U h2 (registerUserSocket U h1 s))) =
       (registerUserSocket U h2 (registerUserSocket U h1 s))
         \<lparr>emitted := emitted s @ (if delivered io h2 n then [(h2, n)] else [])\<rparr>
   \<and> (h1 \<noteq> h2 \<longrightarrow>
        filter (\<lambda>e. fst e = h1)
          (emitted (snd (sendNotificationToUser U n io
             (registerUserSocket U h2 (registerUserSocket U h1 s)))))
        = filter (\<lambda>e. fst e = h1) (emitted s))
   \<and> (userSockets s U = None \<longrightarrow> unregisterUserSocket U s = s)
   \<and> (userSockets s U = None \<longrightarrow>
        sendNotificationToUser U n io s = (None, s)
        \<and> getNotifications (snd (sendNotificationToUser U n io s)) U limit
            = getNotifications s U limit)"
proof -
  let ?s2 = "registerUserSocket U h2 (registerUserSocket U h1 s)"
  have reg: "userSockets ?s2 U = Some h2" "emitted ?s2 = emitted s"
    by (simp_all add: registerUserSocket_def)
  have snd_eq: "snd (sendNotificationToUser U n io ?s2) =
       ?s2\<lparr>emitted := emitted s @ (if delivered io h2 n then [(h2, n)] else [])\<rparr>"
    using send_registered [OF reg(1), of n io] by (simp add: reg(2))
  have "userSockets ?s2 = (userSockets s)(U \<mapsto> h2)"
    by (simp add: registerUserSocket_def)
  moreover note snd_eq
  moreover have "h1 \<noteq> h2 \<longrightarrow>
        filter (\<lambda>e. fst e = h1) (emitted (snd (sendNotificationToUser U n io ?s2)))
        = filter (\<lambda>e. fst e = h1) (emitted s)"
    by (simp add: snd_eq)
  moreover have "userSockets s U = None \<longrightarrow> unregisterUserSocket U s = s"
    by (simp add: unregister_absent)
  moreover have "userSockets s U = None \<longrightarrow>
        sendNotificationToUser U n io s = (None, s)
        \<and> getNotifications (snd (sendNotificationToUser U n io s)) U limit
            = getNotifications s U limit"
    by (simp add: send_unregistered)
  ultimately show ?thesis by blast
qed

theorem registry_single_handle_witness:
  "JStr ''socketA'' \<noteq> JStr ''socketB''
   \<and> emitted (snd (sendNotificationToUser (JNum 2) like_draft (Some io_ok)
        (registerUserSocket (JNum 2) (JStr ''socketB'')
           (registerUserSocket (JNum 2) (JStr ''socketA'') init_state))))
      = [(JStr ''socketB'', like_draft)]
   \<and> filter (\<lambda>e. fst e = JStr ''socketA'')
        (emitted (snd (sendNotificationToUser (JNum 2) like_draft (Some io_ok)
           (registerUserSocket (JNum 2) (JStr ''socketB'')
              (registerUserSocket (JNum 2) (JStr ''socketA'') init_state))))) = []
   \<and> userSockets init_state (JNum 2) = None
   \<and> unregisterUserSocket (JNum 2) init_state = init_state
   \<and> sendNotificationToUser (JNum 2) like_draft (Some io_ok) init_state = (None, init_state)"
proof -
  have a: "userSockets init_state (JNum 2) = None" "emitted init_state = []"
    by (simp_all add: init_state_def)
  have d: "delivered (Some io_ok) (JStr ''socketB'') like_draft"
    by (simp add: delivered_def io_ok_def)
  show ?thesis
    using a d
      registry_single_handle [of "JNum 2" "JStr ''socketB''" "JStr ''socketA''" init_state
        like_draft "Some io_ok" "Some 20"]
    by simp
qed


section \<open>Adding notifications\<close>

lemma take_append_take: "take m (xs @ take m ys) = take m (xs @ ys)"
  by (simp add: min_def)

lemma ticks_addNotification: "ticks (snd (addNotification rt u d s)) = Suc (ticks s)"
  by (simp add: addNotification_def Let_def)

lemma fst_addNotification: "fst (addNotification rt u d s) = new_record rt (ticks s) d"
  by (simp add: addNotification_def Let_def)

lemma notifications_addNotification:
  "notifications (snd (addNotification rt u d s)) =
     (notifications s)(u \<mapsto> take 50 (new_record rt (ticks s) d # user_list s u))"
  by (simp add: addNotification_def Let_def)

lemma others_addNotification:
  "userSockets (snd (addNotification rt u d s)) = userSockets s"
  "users (snd (addNotification rt u d s)) = users s"
  "emitted (snd (addNotification rt u d s)) = emitted s"
  "console (snd (addNotification rt u d s)) = console s"
  by (simp_all add: addNotification_def Let_def)

lemma add_all_Cons:
  "add_all rt ((v, d) # calls) s =
     (new_record rt (ticks s) d # fst (add_all rt calls (snd (addNotification rt v d s))),
      snd (add_all rt calls (snd (addNotification rt v d s))))"
  by (simp add: case_prod_beta fst_addNotification)

declare add_all.simps(2) [simp del]


lemma user_list_add_all:
  "user_list (snd (add_all rt calls s)) u =
     (if added_for u rt calls (ticks s) = [] then user_list s u
      else take 50 (rev (added_for u rt calls (ticks s)) @ user_list s u))"
proof (induction calls arbitrary: s)
  case Nil
  then show ?case by simp
next
  case (Cons c calls)
  obtain v d where c: "c = (v, d)" by (cases c)
  let ?s1 = "snd (addNotification rt v d s)"
  let ?A = "added_for u rt calls (Suc (ticks s))"
  let ?n = "new_record rt (ticks s) d"
  have IH: "user_list (snd (add_all rt calls ?s1)) u =
     (if ?A = [] then user_list ?s1 u else take 50 (rev ?A @ user_list ?s1 u))"
    using Cons.IH [of ?s1] by (simp add: ticks_addNotification)
  show ?case
  proof (cases "u = v")
    case False
    then show ?thesis
      unfolding c add_all_Cons
      by (simp add: IH user_list_addNotification)
  next
    case True
    have s1: "user_list ?s1 u = take 50 (?n # user_list s u)"
      using True by (simp add: user_list_addNotification)
    have added: "added_for u rt (c # calls) (ticks s) = ?n # ?A"
      using True by (simp add: c)
    have "user_list (snd (add_all rt (c # calls) s)) u =
            (if ?A = [] then take 50 (?n # user_list s u)
             else take 50 (rev ?A @ take 50 (?n # user_list s u)))"
      unfolding c add_all_Cons by (simp only: snd_conv IH s1)
    also have "\<dots> = take 50 (rev (?n # ?A) @ user_list s u)"
      by (simp only: take_append_take) simp
    finally show ?thesis by (simp only: added) simp
  qed
qed

lemma map_upt_Suc: "map f [0..<Suc n] = f 0 # map (\<lambda>i. f (Suc i)) [0..<n]"
  by (simp add: upt_conv_Cons map_Suc_upt [symmetric] del: upt_Suc)

lemma ids_add_all:
  "drafts_without_id calls \<Longrightarrow>
   ids_of (fst (add_all rt calls s)) =
     map (\<lambda>i. JNum (generated_id rt (ticks s + i))) [0..<length calls]"
proof (induction calls arbitrary: s)
  case Nil
  then show ?case by (simp add: ids_of_def)
next
  case (Cons c calls)
  obtain v d where c: "c = (v, d)" by (cases c)
  let ?s1 = "snd (addNotification rt v d s)"
  from Cons.prems have d: "\<not> has_own d ''id''" and rest: "drafts_without_id calls"
    by (simp_all add: drafts_without_id_def c)
  have IH: "ids_of (fst (add_all rt calls ?s1)) =
     map (\<lambda>i. JNum (generated_id rt (Suc (ticks s + i))))
       [0..<length calls]"
    using Cons.IH [OF rest, of ?s1] by (simp add: ticks_addNotification)
  have "ids_of (fst (add_all rt (c # calls) s)) =
          JNum (generated_id rt (ticks s)) # ids_of (fst (add_all rt calls ?s1))"
    unfolding c add_all_Cons using d by (simp add: ids_of_def new_record_id)
  also have "\<dots> = map (\<lambda>i. JNum (generated_id rt (ticks s + i)))
       [0..<Suc (length calls)]"
    unfolding IH by (simp only: map_upt_Suc add_Suc_right add_0_right)
  finally show ?case by simp
qed

lemma new_record_copies:
  "k \<noteq> ''id'' \<Longrightarrow> k \<noteq> ''timestamp'' \<Longrightarrow> k \<noteq> ''read'' \<Longrightarrow> distinct (map fst d) \<Longrightarrow>
   obj_get (new_record rt i d) k = obj_get d k"
proof -
  assume k: "k \<noteq> ''id''" "k \<noteq> ''timestamp''" "k \<noteq> ''read''" and d: "distinct (map fst d)"
  have "map_of (spread [(''id'', JNum (generated_id rt i))] d) k = map_of d k"
    using k(1) by (simp add: map_of_spread map_add_def map_of_rev_distinct [OF d] split: option.splits)
  then show ?thesis
    using k by (simp add: new_record_def obj_get_obj_set) (simp add: obj_get_def)
qed

lemma length_add_all:
  "length (user_list s v) \<le> 50 \<Longrightarrow> length (user_list (snd (add_all rt calls s)) v) \<le> 50"
  unfolding user_list_add_all by (simp del: take_append)

lemma ids_distinct_iff:
  assumes "drafts_without_id calls"
  shows "distinct (ids_of (fst (add_all rt calls s))) \<longleftrightarrow>
         distinct (map (\<lambda>i. generated_id rt (ticks s + i)) [0..<length calls])"
proof -
  have "ids_of (fst (add_all rt calls s)) =
      map JNum (map (\<lambda>i. generated_id rt (ticks s + i)) [0..<length calls])"
    by (simp add: ids_add_all [OF assms] comp_def)
  moreover have "inj JNum" by (simp add: inj_def)
  ultimately show ?thesis by (simp only: distinct_map) (auto intro: inj_on_subset)
qed

text \<open>
  C6, as the code has it. \<open>addNotification\<close> returns a new record whose \<open>read\<close> is false
  and whose \<open>timestamp\<close> is the clock reading, whatever the draft holds under these names;
  its \<open>id\<close> is the generated number when the draft has no \<open>id\<close> property, and the
  draft's own \<open>id\<close> when it has one; every other property is the draft's. The record is
  put in front of the user's list and the list is cut to its first 50 entries, so the list
  never grows beyond 50. After any sequence of calls a user's list is the records created
  for that user, newest first, followed by the older entries, cut to 50: what is dropped is
  the oldest entries, read or not.
\<close>

theorem addNotification_spec:
  "obj_get (fst (addNotification rt u d s)) ''read'' = JBool False
   \<and> obj_get (fst (addNotification rt u d s)) ''timestamp'' = JStr (to_iso_string rt (ticks s))
   \<and> (\<not> has_own d ''id'' \<longrightarrow>
        obj_get (fst (addNotification rt u d s)) ''id''
          = JNum (generated_id rt (ticks s)))
   \<and> (has_own d ''id'' \<and> distinct (map fst d) \<longrightarrow>
        obj_get (fst (addNotification rt u d s)) ''id'' = obj_get d ''id'')
   \<and> (k \<noteq> ''id'' \<and> k \<noteq> ''timestamp'' \<and> k \<noteq> ''read'' \<and> distinct (map fst d) \<longrightarrow>
        obj_get (fst (addNotification rt u d s)) k = obj_get d k)
   \<and> notifications (snd (addNotification rt u d s)) =
        (notifications s)(u \<mapsto> take 50 (fst (addNotification rt u d s) # user_list s u))
   \<and> length (user_list (snd (addNotification rt u d s)) u) \<le> 50
   \<and> user_list (snd (add_all rt calls s)) v =
        (if added_for v rt calls (ticks s) = [] then user_list s v
         else take 50 (rev (added_for v rt calls (ticks s)) @ user_list s v))
   \<and> (length (user_list s v) \<le> 50 \<longrightarrow> length (user_list (snd (add_all rt calls s)) v) \<le> 50)"
  by (simp add: fst_addNotification new_record_fields new_record_id new_record_own_id
        new_record_copies notifications_addNotification user_list_addNotification
        length_add_all user_list_add_all [symmetric])


text \<open>
  The claim C6 as written gives every record the assigned id. A draft that carries an
  \<open>id\<close> property keeps it: the spread \<open>...notification\<close> comes after \<open>id\<close> in the
  object literal (and before \<open>timestamp\<close> and \<open>read\<close>).
\<close>

theorem addNotification_assigned_id_counterexample:
  "obj_get (fst (addNotification rt0 (JNum 1) loaded_draft init_state)) ''id'' = JNum 7
   \<and> JNum (generated_id rt0 (ticks init_state)) \<noteq> JNum 7"
  by (simp add: addNotification_def Let_def new_record_def spread_def obj_set_def obj_get_def
        loaded_draft_def rt0_def generated_id_def init_state_def)

theorem addNotification_spec_witness:
  "\<not> has_own like_draft ''id''
   \<and> obj_get (fst (addNotification rt0 (JNum 1) like_draft init_state)) ''id''
       = JNum (1700000000000 + 1 / 4)
   \<and> obj_get (fst (addNotification rt0 (JNum 1) like_draft init_state)) ''type'' = JStr ''newLike''
   \<and> has_own loaded_draft ''id'' \<and> distinct (map fst loaded_draft)
   \<and> obj_get (fst (addNotification rt0 (JNum 1) loaded_draft init_state)) ''id'' = JNum 7
   \<and> obj_get (fst (addNotification rt0 (JNum 1) loaded_draft init_state)) ''read'' = JBool False
   \<and> obj_get (fst (addNotification rt0 (JNum 1) loaded_draft init_state)) ''timestamp''
       = JStr ''2023-11-14T22:13:20.000Z''
   \<and> length (user_list init_state (JNum 1)) \<le> 50
   \<and> length (user_list (snd (add_all rt0 three_calls init_state)) (JNum 1)) \<le> 50
   \<and> user_list (snd (add_all rt0 three_calls init_state)) (JNum 1)
       = [new_record rt0 2 loaded_draft, new_record rt0 0 like_draft]"
proof -
  have a: "\<not> has_own like_draft ''id''" "has_own loaded_draft ''id''"
    "distinct (map fst loaded_draft)" "length (user_list init_state (JNum 1)) \<le> 50"
    "distinct (map fst like_draft)"
    by (simp_all add: has_own_def like_draft_def loaded_draft_def user_list_def init_state_def)
  have b: "ticks init_state = 0" "user_list init_state (JNum 1) = []"
    by (simp_all add: init_state_def user_list_def)
  have c: "added_for (JNum 1) rt0 three_calls 0
           = [new_record rt0 0 like_draft, new_record rt0 2 loaded_draft]"
    by (simp add: three_calls_def numeral_2_eq_2)
  have d: "obj_get like_draft ''type'' = JStr ''newLike''" "obj_get loaded_draft ''id'' = JNum 7"
    "generated_id rt0 0 = 1700000000000 + 1 / 4"
    "to_iso_string rt0 0 = ''2023-11-14T22:13:20.000Z''"
    by (simp_all add: obj_get_def like_draft_def loaded_draft_def rt0_def generated_id_def)
  show ?thesis
    using a
      addNotification_spec [of rt0 "JNum 1" like_draft init_state "''type''" three_calls "JNum 1"]
      addNotification_spec [of rt0 "JNum 1" loaded_draft init_state "''type''" three_calls "JNum 1"]
    by (simp add: b c d)
qed

text \<open>
  C4. The id of a record is \<open>Date.now() + Math.random()\<close>, and nothing else keeps ids
  apart. Two calls that read the same millisecond and draw the same random number create
  two records with the same id, here both for user 1. With the addition of doubles the
  same happens for two different random numbers that are closer than the spacing of
  doubles at the size of the clock value.
\<close>

theorem addNotification_ids_collide:
  "drafts_without_id two_likes
   \<and> ids_of (fst (add_all rt_same two_likes init_state))
       = [JNum (1700000000000 + 1 / 4), JNum (1700000000000 + 1 / 4)]
   \<and> \<not> distinct (ids_of (fst (add_all rt_same two_likes init_state)))
   \<and> math_random rt_double 0 \<noteq> math_random rt_double 1
   \<and> ids_of (fst (add_all rt_double two_likes init_state))
       = [JNum (1700000000000 + 1 / 4), JNum (1700000000000 + 1 / 4)]
   \<and> \<not> distinct (ids_of (fst (add_all rt_double two_likes init_state)))"
proof -
  have a: "drafts_without_id two_likes"
    by (simp add: two_likes_def drafts_without_id_def has_own_def like_draft_def)
  have l: "length two_likes = 2" "ticks init_state = 0"
    by (simp_all add: two_likes_def init_state_def)
  have same: "ids_of (fst (add_all rt_same two_likes init_state))
       = [JNum (1700000000000 + 1 / 4), JNum (1700000000000 + 1 / 4)]"
    by (simp add: ids_add_all [OF a] l rt_same_def generated_id_def upt_rec numeral_2_eq_2)
  have double: "ids_of (fst (add_all rt_double two_likes init_state))
       = [JNum (1700000000000 + 1 / 4), JNum (1700000000000 + 1 / 4)]"
    by (simp add: ids_add_all [OF a] l rt_double_def generated_id_def upt_rec numeral_2_eq_2)
  have r: "math_random rt_double 0 \<noteq> math_random rt_double 1"
    by (simp add: rt_double_def)
  show ?thesis
    using a r by (simp add: same double)
qed

section \<open>The handlers: likes\<close>

lemma get_prop_present: "present v \<Longrightarrow> get_prop v k = Inr (field v k)"
  by (cases v) simp_all

lemma get_prop_absent: "\<not> present v \<Longrightarrow> get_prop v k = Inl TypeError"
  by (cases v) simp_all

lemma field_present: "present (field v k) \<Longrightarrow> present v"
  by (cases v) simp_all

lemma fst_try_catch: "fst (try_catch r) = None"
  by (cases r) (simp add: try_catch_def split: option.splits)

lemma try_catch_None: "try_catch (None, s) = (None, s)"
  by (simp add: try_catch_def)

lemma notifications_try_catch: "notifications (snd (try_catch r)) = notifications (snd r)"
  by (cases r) (simp add: try_catch_def console_error_def split: option.splits)

lemma ticks_try_catch: "ticks (snd (try_catch r)) = ticks (snd r)"
  by (cases r) (simp add: try_catch_def console_error_def split: option.splits)

lemma emitted_try_catch: "emitted (snd (try_catch r)) = emitted (snd r)"
  by (cases r) (simp add: try_catch_def console_error_def split: option.splits)

lemma send_keeps:
  "notifications (snd (sendNotificationToUser u n io s)) = notifications s"
  "ticks (snd (sendNotificationToUser u n io s)) = ticks s"
  "users (snd (sendNotificationToUser u n io s)) = users s"
  "userSockets (snd (sendNotificationToUser u n io s)) = userSockets s"
  by (simp_all add: sendNotificationToUser_def Let_def split: option.splits)

lemma user_list_cong: "notifications s' = notifications s \<Longrightarrow> user_list s' u = user_list s u"
  by (simp add: user_list_def)

lemma getUnreadCount_user_list: "getUnreadCount s u = length (filter unread (user_list s u))"
  by (simp add: getUnreadCount_def user_list_def split: option.splits)

lemma unread_new_record: "unread (new_record rt k d)"
  by (simp add: unread_def new_record_fields)

lemma createLikeNotification_present:
  "present post \<Longrightarrow> present liker \<Longrightarrow>
   createLikeNotification rt post liker postAuthor =
     Inr [(''type'', JStr ''newLike''),
          (''title'', JStr ''New Like''),
          (''message'', JStr (to_string rt (field liker ''name'') @ '' liked your post'')),
          (''data'', JObj [(''postId'', field post ''id''),
                           (''likerId'', field liker ''id''),
                           (''likerName'', field liker ''name'')])]"
  by (simp add: createLikeNotification_def bindE_def get_prop_present)

lemma notify_one_Inr:
  "notifications (snd (notify_one rt io u (Inr d) s)) =
     (notifications s)(u \<mapsto> take 50 (new_record rt (ticks s) d # user_list s u))"
  "ticks (snd (notify_one rt io u (Inr d) s)) = Suc (ticks s)"
  by (simp_all add: notify_one_def send_keeps notifications_addNotification ticks_addNotification)

lemma newLike_handler_wellformed:
  assumes "present (field data ''post'')" "present (field data ''liker'')"
    "present (field data ''postAuthor'')"
  shows "newLike_handler rt io data s =
     try_catch
       (if strict_eq (field (field data ''liker'') ''id'') (field (field data ''postAuthor'') ''id'')
        then (None, s)
        else notify_one rt io (field (field data ''postAuthor'') ''id'')
               (createLikeNotification rt (field data ''post'') (field data ''liker'')
                  (field data ''postAuthor'')) s)"
proof -
  from assms(1) have d: "present data" by (rule field_present)
  show ?thesis
    by (simp add: newLike_handler_def bindE_def get_prop_present d assms)
qed


lemma newLike_self:
  assumes "present (field data ''post'')" "present (field data ''liker'')"
    "present (field data ''postAuthor'')"
    "strict_eq (field (field data ''liker'') ''id'') (field (field data ''postAuthor'') ''id'')"
  shows "newLike_handler rt io data s = (None, s)"
  by (simp add: newLike_handler_wellformed [OF assms(1-3)] assms(4) try_catch_None)

lemma newLike_other:
  assumes "present (field data ''post'')" "present (field data ''liker'')"
    "present (field data ''postAuthor'')"
    "\<not> strict_eq (field (field data ''liker'') ''id'') (field (field data ''postAuthor'') ''id'')"
  shows "notifications (snd (newLike_handler rt io data s)) =
          (notifications s)(field (field data ''postAuthor'') ''id'' \<mapsto>
             take 50 (new_record rt (ticks s)
               [(''type'', JStr ''newLike''),
                (''title'', JStr ''New Like''),
                (''message'', JStr (to_string rt (field (field data ''liker'') ''name'')
                                     @ '' liked your post'')),
                (''data'', JObj [(''postId'', field (field data ''post'') ''id''),
                                 (''likerId'', field (field data ''liker'') ''id''),
                                 (''likerName'', field (field data ''liker'') ''name'')])]
               # user_list s (field (field data ''postAuthor'') ''id'')))"
    and "ticks (snd (newLike_handler rt io data s)) = Suc (ticks s)"
  using assms(4)
  by (simp_all add: newLike_handler_wellformed [OF assms(1-3)] notifications_try_catch
        ticks_try_catch createLikeNotification_present [OF assms(1,2)] notify_one_Inr)

lemma unread_after_insert:
  "notifications s' = (notifications s)(a \<mapsto> take 50 (new_record rt k d # user_list s a)) \<Longrightarrow>
   getUnreadCount s' a = Suc (length (filter unread (take 49 (user_list s a))))"
  by (simp add: getUnreadCount_user_list user_list_def [of s'] unread_new_record)

text \<open>
  C5, as the code has it. For a newLike event that carries a post, a liker and a post
  author, the handler never throws. When the liker's id is the author's id the state is
  unchanged. Otherwise one record of type newLike is put in front of the author's list,
  which is cut to 50 entries, and no other user's list changes; the author's unread count
  is then one more than the number of unread entries among the 49 newest earlier ones, so
  it grows by exactly 1 when the list held fewer than 50 entries.
\<close>

theorem newLike_spec:
  fixes data :: jsval and rt :: runtime and io :: "io option" and s :: state
  defines "post \<equiv> field data ''post''"
    and "liker \<equiv> field data ''liker''"
    and "postAuthor \<equiv> field data ''postAuthor''"
  defines "a \<equiv> field postAuthor ''id''"
  defines "s' \<equiv> snd (newLike_handler rt io data s)"
  assumes wf: "present post" "present liker" "present postAuthor"
  shows "fst (newLike_handler rt io data s) = None
   \<and> (strict_eq (field liker ''id'') a \<longrightarrow> s' = s)
   \<and> (\<not> strict_eq (field liker ''id'') a \<longrightarrow>
        notifications s' =
          (notifications s)(a \<mapsto> take 50 (new_record rt (ticks s)
             [(''type'', JStr ''newLike''),
              (''title'', JStr ''New Like''),
              (''message'', JStr (to_string rt (field liker ''name'') @ '' liked your post'')),
              (''data'', JObj [(''postId'', field post ''id''),
                               (''likerId'', field liker ''id''),
                               (''likerName'', field liker ''name'')])]
             # user_list s a))
      \<and> ticks s' = Suc (ticks s)
      \<and> (u \<noteq> a \<longrightarrow> notifications s' u = notifications s u)
      \<and> getUnreadCount s' a = Suc (length (filter unread (take 49 (user_list s a))))
      \<and> (length (user_list s a) < 50 \<longrightarrow> getUnreadCount s' a = getUnreadCount s a + 1))"
proof -
  note wf' = wf [unfolded post_def liker_def postAuthor_def]
  have 1: "fst (newLike_handler rt io data s) = None"
    by (simp add: newLike_handler_def fst_try_catch)
  have 2: "s' = s" if "strict_eq (field liker ''id'') a"
    using newLike_self [OF wf' that [unfolded a_def liker_def postAuthor_def], of rt io s]
    by (simp add: s'_def)
  {
    assume n: "\<not> strict_eq (field liker ''id'') a"
    note o = newLike_other [OF wf' n [unfolded a_def liker_def postAuthor_def], of rt io s,
        folded s'_def post_def liker_def postAuthor_def a_def]
    have "getUnreadCount s' a = Suc (length (filter unread (take 49 (user_list s a))))"
      using o(1) by (rule unread_after_insert)
    moreover from this have "length (user_list s a) < 50 \<longrightarrow> getUnreadCount s' a = getUnreadCount s a + 1"
      by (simp add: getUnreadCount_user_list [of s])
    moreover have "u \<noteq> a \<longrightarrow> notifications s' u = notifications s u"
      by (simp add: o(1))
    ultimately have "notifications s' =
          (notifications s)(a \<mapsto> take 50 (new_record rt (ticks s)
             [(''type'', JStr ''newLike''),
              (''title'', JStr ''New Like''),
              (''message'', JStr (to_string rt (field liker ''name'') @ '' liked your post'')),
              (''data'', JObj [(''postId'', field post ''id''),
                               (''likerId'', field liker ''id''),
                               (''likerName'', field liker ''name'')])]
             # user_list s a))
      \<and> ticks s' = Suc (ticks s)
      \<and> (u \<noteq> a \<longrightarrow> notifications s' u = notifications s u)
      \<and> getUnreadCount s' a = Suc (length (filter unread (take 49 (user_list s a))))
      \<and> (length (user_list s a) < 50 \<longrightarrow> getUnreadCount s' a = getUnreadCount s a + 1)"
      using o by blast
  }
  with 1 2 show ?thesis by blast
qed

lemma added_for_replicate:
  "added_for u rt (replicate n (u, d)) k = map (\<lambda>i. new_record rt (k + i) d) [0..<n]"
proof (induction n arbitrary: k)
  case 0
  then show ?case by simp
next
  case (Suc n)
  have "added_for u rt (replicate (Suc n) (u, d)) k =
          new_record rt k d # map (\<lambda>i. new_record rt (Suc k + i) d) [0..<n]"
    by (simp add: Suc.IH)
  also have "\<dots> = map (\<lambda>i. new_record rt (k + i) d) [0..<Suc n]"
    by (simp only: map_upt_Suc add_Suc_right add_0_right add_Suc)
  finally show ?case .
qed

lemma fifty_unread_list:
  "user_list fifty_unread (JNum 1) = rev (map (\<lambda>i. new_record rt0 i like_draft) [0..<50])"
proof -
  have "added_for (JNum 1) rt0 (replicate 50 (JNum 1, like_draft)) (ticks init_state)
        = map (\<lambda>i. new_record rt0 i like_draft) [0..<50]"
    by (simp add: added_for_replicate init_state_def)
  then show ?thesis
    unfolding fifty_unread_def user_list_add_all
    by (simp add: user_list_def init_state_def)
qed

lemma fifty_unread_count:
  "length (user_list fifty_unread (JNum 1)) = 50"
  "getUnreadCount fifty_unread (JNum 1) = 50"
  "length (filter unread (take 49 (user_list fifty_unread (JNum 1)))) = 49"
proof -
  have all: "filter unread (user_list fifty_unread (JNum 1)) = user_list fifty_unread (JNum 1)"
    by (simp add: fifty_unread_list unread_new_record)
  show "length (user_list fifty_unread (JNum 1)) = 50"
    by (simp add: fifty_unread_list)
  then show "getUnreadCount fifty_unread (JNum 1) = 50"
    by (simp add: getUnreadCount_user_list all)
  have "filter unread (take 49 (user_list fifty_unread (JNum 1))) = take 49 (user_list fifty_unread (JNum 1))"
    by (rule filter_True) (auto simp: fifty_unread_list unread_new_record dest!: in_set_takeD)
  then show "length (filter unread (take 49 (user_list fifty_unread (JNum 1)))) = 49"
    by (simp add: fifty_unread_list)
qed


lemma like_event_fields:
  "field like_event ''post'' = post1" "field like_event ''liker'' = jane"
  "field like_event ''postAuthor'' = john"
  "field self_like_event ''post'' = post1" "field self_like_event ''liker'' = john"
  "field self_like_event ''postAuthor'' = john"
  "field jane ''id'' = JNum 2" "field john ''id'' = JNum 1"
  "present post1" "present jane" "present john"
  by (simp_all add: like_event_def self_like_event_def post1_def jane_def john_def obj_get_def)

text \<open>
  The claim C5 as written lets the author's unread count grow by exactly 1 for every
  event. With 50 unread notifications stored, the new one pushes the oldest unread one
  out and the count stays 50.
\<close>

theorem newLike_unread_count_counterexample:
  "getUnreadCount fifty_unread (JNum 1) = 50
   \<and> field (field like_event ''liker'') ''id'' = JNum 2
   \<and> field (field like_event ''postAuthor'') ''id'' = JNum 1
   \<and> getUnreadCount (snd (newLike_handler rt0 (Some io_ok) like_event fifty_unread)) (JNum 1) = 50"
proof -
  have "notifications (snd (newLike_handler rt0 (Some io_ok) like_event fifty_unread)) =
          (notifications fifty_unread)(JNum 1 \<mapsto>
             take 50 (new_record rt0 (ticks fifty_unread)
               [(''type'', JStr ''newLike''),
                (''title'', JStr ''New Like''),
                (''message'', JStr (to_string rt0 (field jane ''name'') @ '' liked your post'')),
                (''data'', JObj [(''postId'', field post1 ''id''),
                                 (''likerId'', JNum 2),
                                 (''likerName'', field jane ''name'')])]
               # user_list fifty_unread (JNum 1)))"
    using newLike_other(1) [of like_event rt0 "Some io_ok" fifty_unread]
    by (simp add: like_event_fields)
  then have "getUnreadCount (snd (newLike_handler rt0 (Some io_ok) like_event fifty_unread)) (JNum 1)
             = Suc (length (filter unread (take 49 (user_list fifty_unread (JNum 1)))))"
    by (rule unread_after_insert)
  then show ?thesis
    by (simp add: fifty_unread_count like_event_fields)
qed

theorem newLike_spec_witness:
  "present (field like_event ''post'') \<and> present (field like_event ''liker'')
   \<and> present (field like_event ''postAuthor'')
   \<and> \<not> strict_eq (field (field like_event ''liker'') ''id'')
                    (field (field like_event ''postAuthor'') ''id'')
   \<and> JNum 2 \<noteq> field (field like_event ''postAuthor'') ''id''
   \<and> length (user_list init_state (JNum 1)) < 50
   \<and> getUnreadCount (snd (newLike_handler rt0 (Some io_ok) like_event init_state)) (JNum 1)
       = getUnreadCount init_state (JNum 1) + 1
   \<and> notifications (snd (newLike_handler rt0 (Some io_ok) like_event init_state)) (JNum 2)
       = notifications init_state (JNum 2)
   \<and> strict_eq (field (field self_like_event ''liker'') ''id'')
                 (field (field self_like_event ''postAuthor'') ''id'')
   \<and> snd (newLike_handler rt0 (Some io_ok) self_like_event init_state) = init_state"
proof -
  have l: "length (user_list init_state (JNum 1)) < 50"
    by (simp add: user_list_def init_state_def)
  show ?thesis
    using l
      newLike_spec [where data = like_event and u = "JNum 2" and s = init_state and rt = rt0
        and io = "Some io_ok"]
      newLike_spec [where data = self_like_event and u = "JNum 2" and s = init_state
        and rt = rt0 and io = "Some io_ok"]
    by (simp add: like_event_fields)
qed


section \<open>The handlers: comments\<close>

text \<open>The exported \<open>createCommentNotification\<close> throws for every argument: a TypeError
  when its first or second argument is \<open>undefined\<close> or \<open>null\<close>, else the ReferenceError
  of the unbound \<open>comment\<close>.\<close>

lemma createCommentNotification_throws:
  "createCommentNotification rt post commenter postAuthor =
     Inl (if present commenter \<and> present post then ReferenceError else TypeError)"
  by (cases "present commenter"; cases "present post")
     (simp_all add: createCommentNotification_def createCommentNotification_body_def bindE_def
        get_prop_present get_prop_absent)

lemma notify_one_Inl: "notify_one rt io u (Inl e) s = (Some e, s)"
  by (simp add: notify_one_def)

lemma newComment_handler_cases:
  "newComment_handler rt io data s = (None, s)
   \<or> (\<exists>e. newComment_handler rt io data s = (None, console_error e s))"
  by (auto simp: newComment_handler_def bindE_def try_catch_def createCommentNotification_throws
        notify_one_Inl split: sum.splits)

lemma newComment_stores_nothing:
  "notifications (snd (newComment_handler rt io data s)) = notifications s"
  "emitted (snd (newComment_handler rt io data s)) = emitted s"
  "ticks (snd (newComment_handler rt io data s)) = ticks s"
  using newComment_handler_cases [of rt io data s]
  by (auto simp: console_error_def)

text \<open>With a binding for \<open>comment\<close> the body would build the draft the handler is after:
  the comment text cut to 50 characters, followed by an ellipsis when it was longer.\<close>

lemma createCommentNotification_body_text:
  assumes "present post" "present commenter" "field comment ''text'' = JStr t"
  shows "\<exists>d rest. createCommentNotification_body rt (Some comment) post commenter postAuthor = Inr d
           \<and> obj_get d ''type'' = JStr ''newComment''
           \<and> obj_get d ''data'' = JObj rest
           \<and> obj_get rest ''commentText'' = JStr (take 50 t @ (if length t > 50 then ''...'' else []))"
proof -
  from assms(3) have "present comment" by (cases comment) auto
  with assms show ?thesis
    by (simp add: createCommentNotification_body_def bindE_def get_prop_present truncated_def
          obj_get_def)
qed

lemma comment_event_fields:
  "field comment_event ''post'' = post1" "field comment_event ''comment'' = comment1"
  "field comment_event ''commenter'' = jane" "field comment_event ''postAuthor'' = john"
  "present comment1" "present comment_event"
  by (simp_all add: comment_event_def comment1_def obj_get_def)

lemma json_value_comment_event: "json_value comment_event = comment_event"
  by (simp add: comment_event_def comment1_def post1_def jane_def john_def)

lemma newComment_handler_comment_event:
  "newComment_handler rt0 (Some io_ok) comment_event init_state
     = (None, console_error ReferenceError init_state)"
  by (simp add: newComment_handler_def bindE_def get_prop_present comment_event_fields
        like_event_fields createCommentNotification_throws notify_one_Inl try_catch_def)

text \<open>
  C1. No newComment event creates a notification: for every event, the handler leaves the
  stored notifications and the emitted events as they were. For the event in which user 2
  comments on a post of user 1, \<open>createCommentNotification\<close> throws a ReferenceError,
  the handler catches and logs it, and user 1 has no notification afterwards; the same
  happens when the event is published on the bus of \<open>index.js\<close>.
\<close>

theorem newComment_creates_no_notification:
  "notifications (snd (newComment_handler rt io data s)) = notifications s
   \<and> emitted (snd (newComment_handler rt io data s)) = emitted s
   \<and> field (field comment_event ''commenter'') ''id'' = JNum 2
   \<and> field (field comment_event ''postAuthor'') ''id'' = JNum 1
   \<and> createCommentNotification rt0 (field comment_event ''post'') (field comment_event ''comment'')
        (field comment_event ''commenter'') = Inl ReferenceError
   \<and> newComment_handler rt0 (Some io_ok) comment_event init_state
        = (None, console_error ReferenceError init_state)
   \<and> publishMessage (app_bus rt0 (Some io_ok)) ''newComment'' comment_event init_state
        = (None, console_error ReferenceError init_state)
   \<and> getNotifications (console_error ReferenceError init_state) (JNum 1) (Some 20) = []
   \<and> getUnreadCount (console_error ReferenceError init_state) (JNum 1) = 0"
proof -
  have bus: "listeners (app_bus rt0 (Some io_ok)) ''newComment''
               = [parse_and_call (newComment_handler rt0 (Some io_ok))]"
    "publisher_connected (app_bus rt0 (Some io_ok))"
    by (simp_all add: app_bus_def subscribeToChannel_def subscribe_def init_bus_def)
  have published: "publishMessage (app_bus rt0 (Some io_ok)) ''newComment'' comment_event init_state
        = (None, console_error ReferenceError init_state)"
    by (simp add: publishMessage_def publish_def emit_def bus json_stringify_def
          json_value_comment_event parse_and_call_def json_parse_def
          newComment_handler_comment_event try_catch_def)
       (simp add: comment_event_def)
  have ids: "field (field comment_event ''commenter'') ''id'' = JNum 2"
    "field (field comment_event ''postAuthor'') ''id'' = JNum 1"
    by (simp_all add: comment_event_fields like_event_fields)
  have thrown: "createCommentNotification rt0 (field comment_event ''post'')
        (field comment_event ''comment'') (field comment_event ''commenter'') = Inl ReferenceError"
    by (simp add: comment_event_fields like_event_fields createCommentNotification_throws)
  have empty: "getNotifications (console_error ReferenceError init_state) (JNum 1) (Some 20) = []"
    "getUnreadCount (console_error ReferenceError init_state) (JNum 1) = 0"
    by (simp_all add: getNotifications_def getUnreadCount_def console_error_def init_state_def)
  show ?thesis
    using newComment_stores_nothing(1,2) [of rt io data s] ids thrown
      newComment_handler_comment_event published empty
    by (intro conjI)
qed


section \<open>The handlers: posts\<close>

lemma select_followers_present:
  "present author \<Longrightarrow> select_followers author us = Inr (followers_of (field author ''id'') us)"
  by (induction us) (auto simp: followers_of_def bindE_def get_prop_present split: option.splits)

lemma truncated_string:
  "truncated n (JStr t) = Inr (JStr (take n t @ (if length t > n then ''...'' else [])))"
  by (simp add: truncated_def)

lemma createPostNotification_present:
  "present post \<Longrightarrow> present author \<Longrightarrow> field post ''content'' = JStr c \<Longrightarrow>
   createPostNotification rt post author =
     Inr [(''type'', JStr ''newPost''),
          (''title'', JStr ''New Post''),
          (''message'', JStr (to_string rt (field author ''name'') @ '' just posted something new!'')),
          (''data'', JObj [(''postId'', field post ''id''),
                           (''authorId'', field post ''userId''),
                           (''authorName'', field author ''name''),
                           (''content'', JStr (take 100 c @ (if length c > 100 then ''...'' else [])))])]"
  by (simp add: createPostNotification_def bindE_def get_prop_present truncated_string)

lemma send_never_throws:
  "never_throws io \<Longrightarrow> fst (sendNotificationToUser u n io s) = None"
  by (auto simp: never_throws_def sendNotificationToUser_def Let_def split: option.splits)

lemma addNotification_cong:
  "notifications s1 = notifications s2 \<Longrightarrow> ticks s1 = ticks s2 \<Longrightarrow>
   notifications (snd (addNotification rt u d s1)) = notifications (snd (addNotification rt u d s2))
   \<and> ticks (snd (addNotification rt u d s1)) = ticks (snd (addNotification rt u d s2))"
  by (simp add: notifications_addNotification ticks_addNotification user_list_def)

lemma notify_followers_add_all:
  assumes d: "createPostNotification rt post author = Inr d" and io: "never_throws io"
  shows "notifications s1 = notifications s2 \<Longrightarrow> ticks s1 = ticks s2 \<Longrightarrow>
     fst (notify_followers rt io post author rs s1) = None
     \<and> notifications (snd (notify_followers rt io post author rs s1))
         = notifications (snd (add_all rt (map (\<lambda>r. (user_id r, d)) rs) s2))
     \<and> ticks (snd (notify_followers rt io post author rs s1))
         = ticks (snd (add_all rt (map (\<lambda>r. (user_id r, d)) rs) s2))"
proof (induction rs arbitrary: s1 s2)
  case Nil
  then show ?case by simp
next
  case (Cons r rs)
  let ?a1 = "snd (addNotification rt (user_id r) d s1)"
  let ?a2 = "snd (addNotification rt (user_id r) d s2)"
  let ?t1 = "snd (sendNotificationToUser (user_id r) d io ?a1)"
  have step: "notify_followers rt io post author (r # rs) s1 = notify_followers rt io post author rs ?t1"
    using send_never_throws [OF io, of "user_id r" d ?a1]
    by (cases "sendNotificationToUser (user_id r) d io ?a1") (simp add: d)
  have eq: "notifications ?t1 = notifications ?a2" "ticks ?t1 = ticks ?a2"
    using addNotification_cong [OF Cons.prems, of rt "user_id r" d] by (simp_all add: send_keeps)
  show ?case
    unfolding step using Cons.IH [OF eq] by (simp add: add_all_Cons)
qed

lemma added_for_absent:
  "u \<notin> fst ` set calls \<Longrightarrow> added_for u rt calls k = []"
  by (induction calls arbitrary: k) auto

lemma added_for_distinct:
  "distinct (map fst calls) \<Longrightarrow> i < length calls \<Longrightarrow>
   added_for (fst (calls ! i)) rt calls k = [new_record rt (k + i) (snd (calls ! i))]"
proof (induction calls arbitrary: k i)
  case Nil
  then show ?case by simp
next
  case (Cons c calls)
  obtain v d where c: "c = (v, d)" by (cases c)
  show ?case
  proof (cases i)
    case 0
    with Cons.prems show ?thesis
      by (simp add: c added_for_absent)
  next
    case (Suc j)
    with Cons.prems have j: "j < length calls" and dis: "distinct (map fst calls)"
      and "fst (calls ! j) \<noteq> v"
      by (auto simp: c)
    with Cons.IH [OF dis j, of "Suc k"] show ?thesis
      by (simp add: c Suc)
  qed
qed

lemma ticks_add_all: "ticks (snd (add_all rt calls s)) = ticks s + length calls"
  by (induction calls arbitrary: s) (auto simp: add_all_Cons ticks_addNotification)


lemma notifications_add_all:
  "notifications (snd (add_all rt calls s)) u =
     (if added_for u rt calls (ticks s) = [] then notifications s u
      else Some (take 50 (rev (added_for u rt calls (ticks s)) @ user_list s u)))"
proof (induction calls arbitrary: s)
  case Nil
  then show ?case by simp
next
  case (Cons c calls)
  obtain v d where c: "c = (v, d)" by (cases c)
  let ?s1 = "snd (addNotification rt v d s)"
  let ?A = "added_for u rt calls (Suc (ticks s))"
  let ?n = "new_record rt (ticks s) d"
  have IH: "notifications (snd (add_all rt calls ?s1)) u =
     (if ?A = [] then notifications ?s1 u else Some (take 50 (rev ?A @ user_list ?s1 u)))"
    using Cons.IH [of ?s1] by (simp add: ticks_addNotification)
  show ?case
  proof (cases "u = v")
    case False
    then show ?thesis
      unfolding c add_all_Cons
      by (simp add: IH user_list_addNotification notifications_addNotification)
  next
    case True
    have s1: "user_list ?s1 u = take 50 (?n # user_list s u)"
      "notifications ?s1 u = Some (take 50 (?n # user_list s u))"
      using True by (simp_all add: user_list_addNotification notifications_addNotification)
    have added: "added_for u rt (c # calls) (ticks s) = ?n # ?A"
      using True by (simp add: c)
    have "notifications (snd (add_all rt (c # calls) s)) u =
            (if ?A = [] then Some (take 50 (?n # user_list s u))
             else Some (take 50 (rev ?A @ take 50 (?n # user_list s u))))"
      unfolding c add_all_Cons by (simp only: snd_conv IH s1)
    also have "\<dots> = Some (take 50 (rev (?n # ?A) @ user_list s u))"
      by (simp only: take_append_take) simp
    finally show ?thesis by (simp only: added) simp
  qed
qed

lemma newPost_handler_wellformed:
  assumes "present (field data ''post'')" "present (field data ''author'')"
  shows "newPost_handler rt io data s =
     try_catch (notify_followers rt io (field data ''post'') (field data ''author'')
                  (followers_of (field (field data ''author'') ''id'') (users s)) s)"
proof -
  from assms(1) have d: "present data" by (rule field_present)
  show ?thesis
    by (simp add: newPost_handler_def bindE_def get_prop_present d assms
          select_followers_present)
qed

lemma newPost_effect:
  assumes wf: "present (field data ''post'')" "present (field data ''author'')"
    and d: "createPostNotification rt (field data ''post'') (field data ''author'') = Inr d"
    and io: "never_throws io"
  shows "notifications (snd (newPost_handler rt io data s)) =
           notifications (snd (add_all rt
              (map (\<lambda>r. (user_id r, d)) (followers_of (field (field data ''author'') ''id'') (users s))) s))"
    and "ticks (snd (newPost_handler rt io data s)) =
           ticks s + length (followers_of (field (field data ''author'') ''id'') (users s))"
  using notify_followers_add_all [OF d io, of s s
      "followers_of (field (field data ''author'') ''id'') (users s)"]
  by (simp_all add: newPost_handler_wellformed [OF wf] notifications_try_catch ticks_try_catch
        ticks_add_all)

text \<open>
  C2, as the code has it. Let the event carry a post with a string content and an author,
  let the user ids of the users array be distinct and let no push throw. The recipients
  \<open>rs\<close> are the users whose \<open>following\<close> list holds the author's id, in the order of the
  array. The handler does not throw; the \<open>i\<close>-th recipient gets exactly one new record in
  front of the list (cut to 50), built from the newPost draft whose data hold \<open>post.id\<close> as
  \<open>postId\<close> and \<open>post.userId\<close> as \<open>authorId\<close>; the list of every user who is not a
  recipient is unchanged; and \<open>length rs\<close> records are created in all. The author is
  treated like every other user. For the entry \<open>a\<close> of the users array that has the
  author's id: when the \<open>following\<close> list of \<open>a\<close> does not hold that id, the author's
  list is unchanged; when it does, \<open>a\<close> is one of the recipients and the author gets the
  record like every other recipient.
\<close>

theorem newPost_spec:
  fixes data :: jsval and rt :: runtime and io :: "io option" and s :: state and c :: string
  defines "post \<equiv> field data ''post''"
    and "author \<equiv> field data ''author''"
  defines "rs \<equiv> followers_of (field author ''id'') (users s)"
    and "d \<equiv> [(''type'', JStr ''newPost''),
              (''title'', JStr ''New Post''),
              (''message'', JStr (to_string rt (field author ''name'') @ '' just posted something new!'')),
              (''data'', JObj [(''postId'', field post ''id''),
                               (''authorId'', field post ''userId''),
                               (''authorName'', field author ''name''),
                               (''content'', JStr (take 100 c @ (if length c > 100 then ''...'' else [])))])]"
    and "s' \<equiv> snd (newPost_handler rt io data s)"
  assumes wf: "present post" "present author" "field post ''content'' = JStr c"
    and io: "never_throws io"
    and dis: "distinct (map user_id (users s))"
  shows "fst (newPost_handler rt io data s) = None
   \<and> (i < length rs \<longrightarrow>
        notifications s' (user_id (rs ! i)) =
          Some (take 50 (new_record rt (ticks s + i) d # user_list s (user_id (rs ! i)))))
   \<and> (u \<notin> user_id ` set rs \<longrightarrow> notifications s' u = notifications s u)
   \<and> ticks s' = ticks s + length rs
   \<and> (a \<in> set (users s) \<and> user_id a = field author ''id''
        \<and> \<not> follows a (field author ''id'') \<longrightarrow>
        notifications s' (field author ''id'') = notifications s (field author ''id''))
   \<and> (a \<in> set (users s) \<and> user_id a = field author ''id''
        \<and> follows a (field author ''id'') \<longrightarrow>
        (\<exists>j<length rs. rs ! j = a
           \<and> notifications s' (field author ''id'') =
               Some (take 50 (new_record rt (ticks s + j) d # user_list s (field author ''id'')))))"
proof -
  let ?calls = "map (\<lambda>r. (user_id r, d)) rs"
  note wf' = wf [unfolded post_def author_def]
  have cd: "createPostNotification rt (field data ''post'') (field data ''author'') = Inr d"
    using createPostNotification_present [OF wf' , of rt] by (simp add: d_def post_def author_def)
  note eff = newPost_effect [OF wf'(1,2) cd io, of s, folded author_def rs_def s'_def]
  have disr: "distinct (map fst ?calls)"
    using dis by (simp add: rs_def comp_def distinct_map_filter followers_of_def)
  have 1: "fst (newPost_handler rt io data s) = None"
    by (simp add: newPost_handler_def fst_try_catch)
  have 2: "notifications s' (user_id (rs ! i)) =
          Some (take 50 (new_record rt (ticks s + i) d # user_list s (user_id (rs ! i))))"
    if i: "i < length rs"
  proof -
    from i have "added_for (fst (?calls ! i)) rt ?calls (ticks s)
                 = [new_record rt (ticks s + i) (snd (?calls ! i))]"
      by (intro added_for_distinct [OF disr]) simp
    with i have "added_for (user_id (rs ! i)) rt ?calls (ticks s) = [new_record rt (ticks s + i) d]"
      by simp
    then show ?thesis
      by (simp add: eff(1) notifications_add_all)
  qed
  have 3: "notifications s' u = notifications s u" if u: "u \<notin> user_id ` set rs"
  proof -
    from u have "u \<notin> fst ` set ?calls" by (simp add: image_comp comp_def)
    then have "added_for u rt ?calls (ticks s) = []" by (rule added_for_absent)
    then show ?thesis by (simp add: eff(1) notifications_add_all)
  qed
  have 4: "notifications s' (field author ''id'') = notifications s (field author ''id'')"
    if a: "a \<in> set (users s) \<and> user_id a = field author ''id''
           \<and> \<not> follows a (field author ''id'')"
  proof -
    have "field author ''id'' \<notin> user_id ` set rs"
    proof
      assume "field author ''id'' \<in> user_id ` set rs"
      then obtain r where r: "r \<in> set rs" "user_id r = field author ''id''" by auto
      from r(1) have rin: "r \<in> set (users s)" and rf: "follows r (field author ''id'')"
        by (simp_all add: rs_def followers_of_def follows_def)
      from dis have "inj_on user_id (set (users s))" by (simp add: distinct_map)
      from a r(2) have "user_id r = user_id a" by simp
      with \<open>inj_on user_id (set (users s))\<close> rin a have "r = a"
        by (blast dest: inj_onD)
      with rf a show False by simp
    qed
    then have "field author ''id'' \<notin> fst ` set ?calls" by (simp add: image_comp comp_def)
    then have "added_for (field author ''id'') rt ?calls (ticks s) = []"
      by (rule added_for_absent)
    then show ?thesis by (simp add: eff(1) notifications_add_all)
  qed
  have 5: "\<exists>j<length rs. rs ! j = a
           \<and> notifications s' (field author ''id'') =
               Some (take 50 (new_record rt (ticks s + j) d # user_list s (field author ''id'')))"
    if a: "a \<in> set (users s) \<and> user_id a = field author ''id''
           \<and> follows a (field author ''id'')"
  proof -
    from a have "a \<in> set rs" by (simp add: rs_def followers_of_def follows_def)
    then obtain j where j: "j < length rs" "rs ! j = a" by (auto simp: in_set_conv_nth)
    have "added_for (fst (?calls ! j)) rt ?calls (ticks s)
                 = [new_record rt (ticks s + j) (snd (?calls ! j))]"
      using j(1) by (intro added_for_distinct [OF disr]) simp
    with j a have "added_for (field author ''id'') rt ?calls (ticks s)
                 = [new_record rt (ticks s + j) d]"
      by simp
    then have "notifications s' (field author ''id'') =
               Some (take 50 (new_record rt (ticks s + j) d # user_list s (field author ''id'')))"
      by (simp add: eff(1) notifications_add_all)
    with j show ?thesis by blast
  qed
  show ?thesis using 1 2 3 4 5 eff(2) by blast
qed


lemma post_event_fields:
  "field post_event ''post'' = post1" "field post_event ''author'' = john"
  "field post1 ''content'' = JStr ''Excited to connect with my fans on StarConnect!''"
  "field post1 ''id'' = JNum 1" "field post1 ''userId'' = JNum 1"
  "field john ''name'' = JStr ''John Celebrity''"
  by (simp_all add: post_event_def post1_def john_def obj_get_def)

lemma post_draft_created:
  "createPostNotification rt0 (field post_event ''post'') (field post_event ''author'') = Inr post_draft"
  by (simp add: createPostNotification_present [where c = "''Excited to connect with my fans on StarConnect!''"]
        post_event_fields like_event_fields post_draft_def rt0_def sample_to_string_def)

lemma never_throws_io_ok: "never_throws (Some io_ok)"
  by (simp add: never_throws_def io_ok_def)

lemma abc_followers:
  "map user_id (followers_of (JNum 1) (users abc_connected)) = [JNum 2, JNum 3]"
  "length (followers_of (JNum 1) (users abc_connected)) = 2"
  "user_id (followers_of (JNum 1) (users abc_connected) ! 0) = JNum 2"
  "user_id (followers_of (JNum 1) (users abc_connected) ! Suc 0) = JNum 3"
  "user_id ` set (followers_of (JNum 1) (users abc_connected)) = {JNum 2, JNum 3}"
  "ticks abc_connected = 0" "notifications abc_connected = Map.empty"
  by (simp_all add: followers_of_def abc_connected_def abc_state_def registerUserSocket_def
        users_abc_def user_a_def user_b_def user_c_def array_includes_def init_state_def)

lemma abc_distinct: "distinct (map user_id (users abc_connected))"
  by (simp add: abc_connected_def abc_state_def registerUserSocket_def users_abc_def
        user_a_def user_b_def user_c_def)

text \<open>
  The claim C2 as written excludes the author even when the author follows themselves.
  The handler has no such exclusion: with a users array in which user 1 follows user 1,
  a post of user 1 creates a notification for user 1.
\<close>

theorem newPost_self_follow_counterexample:
  "field (field post_event ''author'') ''id'' = JNum 1
   \<and> user_following (hd (users self_follow_state)) = Some [JNum 1]
   \<and> notifications self_follow_state (JNum 1) = None
   \<and> notifications (snd (newPost_handler rt0 (Some io_ok) post_event self_follow_state)) (JNum 1)
       = Some [new_record rt0 0 post_draft]"
proof -
  have f: "followers_of (JNum 1) (users self_follow_state) = users self_follow_state"
    "map (\<lambda>r. (user_id r, post_draft)) (users self_follow_state) = [(JNum 1, post_draft)]"
    "ticks self_follow_state = 0" "notifications self_follow_state (JNum 1) = None"
    "user_following (hd (users self_follow_state)) = Some [JNum 1]"
    by (simp_all add: followers_of_def self_follow_state_def user_self_def array_includes_def
          init_state_def)
  have a: "field (field post_event ''author'') ''id'' = JNum 1"
    by (simp add: post_event_fields like_event_fields)
  have "notifications (snd (newPost_handler rt0 (Some io_ok) post_event self_follow_state)) =
          notifications (snd (add_all rt0 [(JNum 1, post_draft)] self_follow_state))"
    using newPost_effect(1) [OF _ _ post_draft_created never_throws_io_ok, of self_follow_state] f(2)
    by (simp add: post_event_fields like_event_fields f(1))
  then show ?thesis
    using a f by (simp add: notifications_add_all user_list_def)
qed

theorem newPost_spec_witness:
  "present (field post_event ''post'') \<and> present (field post_event ''author'')
   \<and> field (field post_event ''post'') ''content''
       = JStr ''Excited to connect with my fans on StarConnect!''
   \<and> never_throws (Some io_ok)
   \<and> distinct (map user_id (users abc_connected))
   \<and> map user_id (followers_of (field (field post_event ''author'') ''id'') (users abc_connected))
       = [JNum 2, JNum 3]
   \<and> notifications (snd (newPost_handler rt0 (Some io_ok) post_event abc_connected)) (JNum 2)
       = Some [new_record rt0 0 post_draft]
   \<and> notifications (snd (newPost_handler rt0 (Some io_ok) post_event abc_connected)) (JNum 3)
       = Some [new_record rt0 1 post_draft]
   \<and> notifications (snd (newPost_handler rt0 (Some io_ok) post_event abc_connected)) (JNum 1)
       = None
   \<and> ticks (snd (newPost_handler rt0 (Some io_ok) post_event abc_connected)) = 2
   \<and> user_a \<in> set (users abc_connected)
   \<and> user_id user_a = field (field post_event ''author'') ''id''
   \<and> \<not> follows user_a (field (field post_event ''author'') ''id'')
   \<and> notifications (snd (newPost_handler rt0 (Some io_ok) post_event abc_connected))
         (field (field post_event ''author'') ''id'')
       = notifications abc_connected (field (field post_event ''author'') ''id'')
   \<and> distinct (map user_id (users self_follow_state))
   \<and> user_self \<in> set (users self_follow_state)
   \<and> user_id user_self = field (field post_event ''author'') ''id''
   \<and> follows user_self (field (field post_event ''author'') ''id'')
   \<and> notifications (snd (newPost_handler rt0 (Some io_ok) post_event self_follow_state))
         (field (field post_event ''author'') ''id'')
       = Some [new_record rt0 0 post_draft]"
proof -
  have wf: "present (field post_event ''post'')" "present (field post_event ''author'')"
    "field (field post_event ''post'') ''content''
       = JStr ''Excited to connect with my fans on StarConnect!''"
    by (simp_all add: post_event_fields like_event_fields)
  have a: "field (field post_event ''author'') ''id'' = JNum 1"
    by (simp add: post_event_fields like_event_fields)
  have d: "[(''type'', JStr ''newPost''), (''title'', JStr ''New Post''),
            (''message'', JStr (to_string rt0 (field (field post_event ''author'') ''name'')
                                 @ '' just posted something new!'')),
            (''data'', JObj [(''postId'', field (field post_event ''post'') ''id''),
                             (''authorId'', field (field post_event ''post'') ''userId''),
                             (''authorName'', field (field post_event ''author'') ''name''),
                             (''content'', JStr (take 100 ''Excited to connect with my fans on StarConnect!''
                                @ (if length ''Excited to connect with my fans on StarConnect!'' > 100
                                   then ''...'' else [])))])] = post_draft"
    by (simp add: post_event_fields post_draft_def rt0_def sample_to_string_def)
  note t0 = newPost_spec [where data = post_event and rt = rt0 and io = "Some io_ok"
      and s = abc_connected and c = "''Excited to connect with my fans on StarConnect!''"
      and i = 0 and u = "JNum 1", OF wf never_throws_io_ok abc_distinct, unfolded d]
  note t1 = newPost_spec [where data = post_event and rt = rt0 and io = "Some io_ok"
      and s = abc_connected and c = "''Excited to connect with my fans on StarConnect!''"
      and i = 1 and u = "JNum 1", OF wf never_throws_io_ok abc_distinct, unfolded d]
  have ua: "user_a \<in> set (users abc_connected)" "user_id user_a = JNum 1"
    "\<not> follows user_a (JNum 1)"
    by (simp_all add: abc_connected_def abc_state_def registerUserSocket_def users_abc_def
          user_a_def follows_def array_includes_def)
  have us: "distinct (map user_id (users self_follow_state))"
    "user_self \<in> set (users self_follow_state)" "user_id user_self = JNum 1"
    "follows user_self (JNum 1)"
    "followers_of (JNum 1) (users self_follow_state) = [user_self]"
    "ticks self_follow_state = 0" "notifications self_follow_state (JNum 1) = None"
    by (simp_all add: self_follow_state_def user_self_def follows_def followers_of_def
          array_includes_def init_state_def)
  note t2 = newPost_spec [where data = post_event and rt = rt0 and io = "Some io_ok"
      and s = abc_connected and c = "''Excited to connect with my fans on StarConnect!''"
      and i = 0 and u = "JNum 1" and a = user_a, OF wf never_throws_io_ok abc_distinct,
      unfolded d]
  note t3 = newPost_spec [where data = post_event and rt = rt0 and io = "Some io_ok"
      and s = self_follow_state and c = "''Excited to connect with my fans on StarConnect!''"
      and i = 0 and u = "JNum 2" and a = user_self, OF wf never_throws_io_ok us(1),
      unfolded d]
  have author_unchanged:
    "notifications (snd (newPost_handler rt0 (Some io_ok) post_event abc_connected)) (JNum 1)
       = notifications abc_connected (JNum 1)"
    using t2 ua by (simp add: a)
  have author_notified:
    "notifications (snd (newPost_handler rt0 (Some io_ok) post_event self_follow_state)) (JNum 1)
       = Some [new_record rt0 0 post_draft]"
    using t3 us by (simp add: a user_list_def)
  show ?thesis
    using wf never_throws_io_ok abc_distinct t0 t1 ua us(1-4) author_unchanged author_notified
    by (simp add: a abc_followers user_list_def)
qed


section \<open>The event bus\<close>

lemma fst_parse_and_call: "fst (parse_and_call cb m s) = None"
  by (simp add: parse_and_call_def fst_try_catch)

lemma call_listeners_isolated:
  "call_listeners (map parse_and_call cbs) m s =
     (None, fold (\<lambda>cb s. snd (parse_and_call cb m s)) cbs s)"
proof (induction cbs arbitrary: s)
  case Nil
  then show ?case by simp
next
  case (Cons cb cbs)
  have "parse_and_call cb m s = (None, snd (parse_and_call cb m s))"
    using fst_parse_and_call [of cb m s] by (cases "parse_and_call cb m s") simp
  then have "call_listeners (map parse_and_call (cb # cbs)) m s =
        call_listeners (map parse_and_call cbs) m (snd (parse_and_call cb m s))"
    by (cases "parse_and_call cb m s") simp
  then show ?case by (simp add: Cons.IH)
qed

lemma parse_and_call_parsed:
  "snd (parse_and_call cb (Some v) s) = snd (try_catch (cb v s))"
  by (simp add: parse_and_call_def json_parse_def)

lemma fst_publishMessage: "fst (publishMessage b channel m s) = None"
  by (simp add: publishMessage_def fst_try_catch)

lemma publishMessage_isolated:
  assumes "listeners b channel = map parse_and_call cbs" "publisher_connected b" "cbs \<noteq> []"
    "m \<noteq> JUndefined"
  shows "publishMessage b channel m s =
           (None, fold (\<lambda>cb s. snd (try_catch (cb (json_value m) s))) cbs s)"
  using assms
  by (simp add: publishMessage_def publish_def emit_def call_listeners_isolated try_catch_None
        json_stringify_def parse_and_call_parsed)

lemma listeners_subscribeToChannel:
  "subscriber_connected b \<Longrightarrow>
   listeners (subscribeToChannel b channel cb) channel = listeners b channel @ [parse_and_call cb]"
  by (simp add: subscribeToChannel_def subscribe_def)

lemma fst_handlers:
  "fst (newPost_handler rt io data s) = None"
  "fst (newLike_handler rt io data s) = None"
  "fst (newComment_handler rt io data s) = None"
  by (simp_all add: newPost_handler_def newLike_handler_def newComment_handler_def fst_try_catch)

lemma notify_followers_abort:
  assumes "createPostNotification rt post author = Inr d"
    "fst (sendNotificationToUser (user_id r) d io (snd (addNotification rt (user_id r) d s))) = Some e"
  shows "notify_followers rt io post author (r # rest) s =
           (Some e, snd (addNotification rt (user_id r) d s))"
proof -
  let ?a = "snd (addNotification rt (user_id r) d s)"
  from assms(2) have "sendNotificationToUser (user_id r) d io ?a = (Some e, ?a)"
    by (auto simp: sendNotificationToUser_def Let_def split: option.splits if_splits)
  then show ?thesis by (simp add: assms(1))
qed


text \<open>
  C3, as the code has it. \<open>publishMessage\<close> never throws. When the listeners of a channel
  are those installed by \<open>subscribeToChannel\<close> for the callbacks \<open>cbs\<close> (and
  \<open>subscribeToChannel\<close> installs such a listener behind the existing ones), publishing a
  message runs every callback of \<open>cbs\<close> in turn on the parsed message, each on the state
  the one before it left, whether or not that one threw: an exception is caught and logged.
  The three handlers of \<open>index.js\<close> never throw either. Inside the newPost handler the
  recipients share one \<open>try\<close> block: when the push to a recipient throws, the loop ends
  there with that exception, after the notification of this recipient was stored and
  before any later recipient is looked at.
\<close>

theorem publish_isolation:
  "fst (publishMessage b channel m s) = None
   \<and> (listeners b channel = map parse_and_call cbs \<and> publisher_connected b \<and> cbs \<noteq> []
        \<and> m \<noteq> JUndefined \<longrightarrow>
        snd (publishMessage b channel m s)
          = fold (\<lambda>cb s. snd (try_catch (cb (json_value m) s))) cbs s)
   \<and> (subscriber_connected b \<longrightarrow>
        listeners (subscribeToChannel b channel cb) channel
          = listeners b channel @ [parse_and_call cb])
   \<and> fst (newPost_handler rt io data s) = None
   \<and> fst (newLike_handler rt io data s) = None
   \<and> fst (newComment_handler rt io data s) = None
   \<and> (createPostNotification rt post author = Inr d
        \<and> fst (sendNotificationToUser (user_id r) d io
                  (snd (addNotification rt (user_id r) d s))) = Some e \<longrightarrow>
        notify_followers rt io post author (r # rest) s
          = (Some e, snd (addNotification rt (user_id r) d s)))"
proof (intro conjI impI)
  show "fst (publishMessage b channel m s) = None"
    by (rule fst_publishMessage)
  show "snd (publishMessage b channel m s)
          = fold (\<lambda>cb s. snd (try_catch (cb (json_value m) s))) cbs s"
    if "listeners b channel = map parse_and_call cbs \<and> publisher_connected b \<and> cbs \<noteq> []
        \<and> m \<noteq> JUndefined"
    using that by (simp add: publishMessage_isolated)
  show "listeners (subscribeToChannel b channel cb) channel
          = listeners b channel @ [parse_and_call cb]" if "subscriber_connected b"
    using that by (rule listeners_subscribeToChannel)
  show "fst (newPost_handler rt io data s) = None" "fst (newLike_handler rt io data s) = None"
    "fst (newComment_handler rt io data s) = None"
    by (rule fst_handlers)+
  show "notify_followers rt io post author (r # rest) s
          = (Some e, snd (addNotification rt (user_id r) d s))"
    if "createPostNotification rt post author = Inr d
        \<and> fst (sendNotificationToUser (user_id r) d io
                  (snd (addNotification rt (user_id r) d s))) = Some e"
    using that by (intro notify_followers_abort) simp_all
qed

lemma abc_followers_list:
  "followers_of (JNum 1) (users abc_connected) = [user_b, user_c]"
  "user_id user_b = JNum 2" "user_id user_c = JNum 3"
  by (simp_all add: followers_of_def abc_connected_def abc_state_def registerUserSocket_def
        users_abc_def user_a_def user_b_def user_c_def array_includes_def init_state_def)

lemma socketB_throws:
  "fst (sendNotificationToUser (JNum 2) post_draft (Some (io_failing_at (JStr ''socketB'')))
          (snd (addNotification rt0 (JNum 2) post_draft abc_connected))) = Some TransportError"
  by (simp add: sendNotificationToUser_def Let_def getUserSocket_def others_addNotification
        abc_connected_def registerUserSocket_def io_failing_at_def)

lemma newPost_aborted:
  "newPost_handler rt0 (Some (io_failing_at (JStr ''socketB''))) post_event abc_connected
     = (None, console_error TransportError (snd (addNotification rt0 (JNum 2) post_draft abc_connected)))"
proof -
  have "notify_followers rt0 (Some (io_failing_at (JStr ''socketB''))) post1 john [user_b, user_c]
          abc_connected
        = (Some TransportError, snd (addNotification rt0 (JNum 2) post_draft abc_connected))"
    using notify_followers_abort [of rt0 post1 john post_draft user_b
        "Some (io_failing_at (JStr ''socketB''))" abc_connected TransportError "[user_c]"]
      post_draft_created socketB_throws
    by (simp add: post_event_fields abc_followers_list)
  then show ?thesis
    by (simp add: newPost_handler_wellformed post_event_fields like_event_fields
          abc_followers_list try_catch_def)
qed

text \<open>
  The claim C3 as written also keeps the remaining recipients of one handler going. Users
  2 and 3 follow user 1 and both are connected; the push to the socket of user 2 throws.
  The handler logs the exception, and user 3, whose own push would have succeeded, gets
  neither a stored notification nor a push.
\<close>

theorem newPost_abort_counterexample:
  "map user_id (followers_of (field (field post_event ''author'') ''id'') (users abc_connected))
     = [JNum 2, JNum 3]
   \<and> io_failing_at (JStr ''socketB'') (JStr ''socketC'') post_draft = None
   \<and> userSockets abc_connected (JNum 3) = Some (JStr ''socketC'')
   \<and> console (snd (newPost_handler rt0 (Some (io_failing_at (JStr ''socketB''))) post_event
                      abc_connected)) = [TransportError]
   \<and> notifications (snd (newPost_handler rt0 (Some (io_failing_at (JStr ''socketB''))) post_event
                           abc_connected)) (JNum 3) = None
   \<and> emitted (snd (newPost_handler rt0 (Some (io_failing_at (JStr ''socketB''))) post_event
                     abc_connected)) = []"
  by (simp add: newPost_aborted console_error_def others_addNotification
        notifications_addNotification abc_followers post_event_fields like_event_fields
        io_failing_at_def)
     (simp add: abc_connected_def abc_state_def registerUserSocket_def init_state_def)

lemma two_callbacks_listeners:
  "listeners two_callbacks_bus ''newLike''
     = map parse_and_call [throwing_callback, newLike_handler rt0 (Some io_ok)]"
  "publisher_connected two_callbacks_bus" "subscriber_connected init_bus"
  by (simp_all add: two_callbacks_bus_def subscribeToChannel_def subscribe_def init_bus_def)

lemma json_value_like_event: "json_value like_event = like_event" "like_event \<noteq> JUndefined"
  by (simp_all add: like_event_def post1_def jane_def john_def)

theorem publish_isolation_witness:
  "listeners two_callbacks_bus ''newLike''
     = map parse_and_call [throwing_callback, newLike_handler rt0 (Some io_ok)]
   \<and> publisher_connected two_callbacks_bus
   \<and> like_event \<noteq> JUndefined
   \<and> fst (publishMessage two_callbacks_bus ''newLike'' like_event init_state) = None
   \<and> snd (publishMessage two_callbacks_bus ''newLike'' like_event init_state)
       = snd (newLike_handler rt0 (Some io_ok) like_event (console_error TypeError init_state))
   \<and> subscriber_connected init_bus
   \<and> listeners (subscribeToChannel init_bus ''newLike'' throwing_callback) ''newLike''
       = [parse_and_call throwing_callback]
   \<and> createPostNotification rt0 post1 john = Inr post_draft
   \<and> fst (sendNotificationToUser (user_id user_b) post_draft (Some (io_failing_at (JStr ''socketB'')))
            (snd (addNotification rt0 (user_id user_b) post_draft abc_connected)))
       = Some TransportError
   \<and> notify_followers rt0 (Some (io_failing_at (JStr ''socketB''))) post1 john [user_b, user_c]
        abc_connected
       = (Some TransportError, snd (addNotification rt0 (user_id user_b) post_draft abc_connected))"
proof -
  have c: "createPostNotification rt0 post1 john = Inr post_draft"
    using post_draft_created by (simp add: post_event_fields)
  have t: "fst (sendNotificationToUser (user_id user_b) post_draft
                  (Some (io_failing_at (JStr ''socketB'')))
                  (snd (addNotification rt0 (user_id user_b) post_draft abc_connected)))
           = Some TransportError"
    using socketB_throws by (simp add: abc_followers_list)
  have l: "listeners init_bus ''newLike'' = []"
    by (simp add: init_bus_def)
  have thrown: "try_catch (throwing_callback like_event init_state)
                = (None, console_error TypeError init_state)"
    by (simp add: throwing_callback_def try_catch_def)
  have h: "try_catch (newLike_handler rt0 (Some io_ok) like_event (console_error TypeError init_state))
           = newLike_handler rt0 (Some io_ok) like_event (console_error TypeError init_state)"
    using fst_handlers(2) [of rt0 "Some io_ok" like_event "console_error TypeError init_state"]
    by (cases "newLike_handler rt0 (Some io_ok) like_event (console_error TypeError init_state)")
       (simp add: try_catch_def)
  have p: "fst (publishMessage two_callbacks_bus ''newLike'' like_event init_state) = None"
    "snd (publishMessage two_callbacks_bus ''newLike'' like_event init_state)
       = snd (newLike_handler rt0 (Some io_ok) like_event (console_error TypeError init_state))"
    using two_callbacks_listeners json_value_like_event(2)
      publish_isolation [where b = two_callbacks_bus and channel = "''newLike''" and m = like_event
        and s = init_state and cbs = "[throwing_callback, newLike_handler rt0 (Some io_ok)]"]
    by (simp_all add: json_value_like_event(1) thrown h)
  have q: "listeners (subscribeToChannel init_bus ''newLike'' throwing_callback) ''newLike''
       = [parse_and_call throwing_callback]"
    using two_callbacks_listeners(3)
      publish_isolation [where b = init_bus and channel = "''newLike''" and cb = throwing_callback]
    by (simp add: l)
  have n: "notify_followers rt0 (Some (io_failing_at (JStr ''socketB''))) post1 john [user_b, user_c]
        abc_connected
       = (Some TransportError, snd (addNotification rt0 (user_id user_b) post_draft abc_connected))"
    using c t
      publish_isolation [where rt = rt0 and post = post1 and author = john and d = post_draft
        and r = user_b and io = "Some (io_failing_at (JStr ''socketB''))" and s = abc_connected
        and e = TransportError and rest = "[user_c]"]
    by blast
  show ?thesis
    using two_callbacks_listeners json_value_like_event(2) c t p q n by (intro conjI)
qed

end
